theory Spec2Isabelle
  imports Complex_Main "HOL-Library.Sublist"
begin

section \<open>Data model of the move-selection engine (client/src/lib/aiPlayer.ts)\<close>

text \<open>
  The engine works on JavaScript numbers. Coordinates, atom counts and HQ health are
  integers here; scores and personality traits are rationals (IEEE rounding is not
  modelled). \<open>PLAYER\<close> is the string enum of the game's constants module: every player
  value is truthy, so the source's test \<open>cell.player && cell.player !== currentPlayer\<close>
  is "owned by somebody else".
\<close>

datatype PLAYER = RED | BLUE | ORANGE | BLACK

datatype PowerUpType = Diamond | Heart

record GridCell =
  atoms :: int
  player :: "PLAYER option"

record HQCell =
  hq_row :: int
  hq_col :: int
  hq_player :: PLAYER
  hq_health :: int

record PowerUpCell =
  pu_row :: int
  pu_col :: int
  pu_type :: PowerUpType

record AIMove =
  row :: int
  col :: int
  score :: rat

type_synonym grid = "GridCell list list"

text \<open>The only exception the engine can raise: a property read on \<open>undefined\<close>.\<close>

datatype error = TypeError

text \<open>\<open>xs[i]\<close> in JavaScript: \<open>undefined\<close> (here \<open>None\<close>) outside the array.\<close>

definition nth_opt :: "'a list \<Rightarrow> int \<Rightarrow> 'a option" where
  "nth_opt xs i = (if 0 \<le> i \<and> i < int (length xs) then Some (xs ! nat i) else None)"

section \<open>Move validator\<close>

text \<open>
  \<open>isAdjacentTo\<close> is imported from the game utilities and is a parameter of the model.
  The two scanning loops of the source leave at the first hit; they are existence tests.
\<close>

definition hasPlayerDots :: "grid \<Rightarrow> PLAYER \<Rightarrow> bool" where
  "hasPlayerDots grid currentPlayer =
     list_ex (list_ex (\<lambda>c. player c = Some currentPlayer \<and> atoms c > 0)) grid"

definition hasAdjacentDot ::
  "(int \<Rightarrow> int \<Rightarrow> int \<Rightarrow> int \<Rightarrow> bool) \<Rightarrow> grid \<Rightarrow> int \<Rightarrow> int \<Rightarrow> PLAYER \<Rightarrow> bool" where
  "hasAdjacentDot isAdjacentTo grid r0 c0 currentPlayer =
     list_ex (\<lambda>r. list_ex (\<lambda>c.
         player (grid ! r ! c) = Some currentPlayer \<and> atoms (grid ! r ! c) > 0
         \<and> isAdjacentTo r0 c0 (int r) (int c))
       [0..<length (grid ! r)]) [0..<length grid]"

definition isHQAt :: "HQCell list option \<Rightarrow> int \<Rightarrow> int \<Rightarrow> bool" where
  "isHQAt hqs r c =
     (case hqs of None \<Rightarrow> False
      | Some hs \<Rightarrow> list_ex (\<lambda>hq. hq_row hq = r \<and> hq_col hq = c) hs)"

definition outOfBounds :: "grid \<Rightarrow> int \<Rightarrow> int \<Rightarrow> bool" where
  "outOfBounds grid r c =
     (r < 0 \<or> r \<ge> int (length grid) \<or> c < 0 \<or>
      (case grid of [] \<Rightarrow> True | r0 # _ \<Rightarrow> c \<ge> int (length r0)))"

definition isValidMoveForAI ::
  "(int \<Rightarrow> int \<Rightarrow> int \<Rightarrow> int \<Rightarrow> bool) \<Rightarrow> grid \<Rightarrow> int \<Rightarrow> int \<Rightarrow> PLAYER \<Rightarrow> bool
     \<Rightarrow> HQCell list option \<Rightarrow> error + bool" where
  "isValidMoveForAI isAdjacentTo grid r c currentPlayer isBaseMode hqs =
     (if outOfBounds grid r c then Inr False
      else if isBaseMode \<and> isHQAt hqs r c then Inr False
      else (case nth_opt (grid ! nat r) c of
        None \<Rightarrow> Inl TypeError
      | Some cell \<Rightarrow>
          (if \<not> isBaseMode
           then Inr (player cell = None \<or> player cell = Some currentPlayer)
           else if player cell \<noteq> None \<and> player cell \<noteq> Some currentPlayer then Inr False
           else (case hqs of
             None \<Rightarrow> Inr True
           | Some hs \<Rightarrow>
               (case find (\<lambda>hq. hq_player hq = currentPlayer) hs of
                  None \<Rightarrow> Inr True
                | Some playerHQ \<Rightarrow>
                    (if \<not> hasPlayerDots grid currentPlayer
                     then Inr (r = hq_row playerHQ \<or> c = hq_col playerHQ)
                     else Inr ((\<bar>r - hq_row playerHQ\<bar> \<le> 1 \<and> \<bar>c - hq_col playerHQ\<bar> \<le> 1)
                               \<or> hasAdjacentDot isAdjacentTo grid r c currentPlayer)))))))"

section \<open>Effects: exceptions, the random source, the object store\<close>

text \<open>
  A computation of the engine takes the state of the world and returns either a value or
  the exception it raised, together with the state it leaves behind (an exception does
  not undo the writes made before it).
\<close>

type_synonym ('s, 'a) eff = "'s \<Rightarrow> (error + 'a) \<times> 's"

definition ret :: "'a \<Rightarrow> ('s, 'a) eff" where
  "ret x = (\<lambda>s. (Inr x, s))"

definition throw :: "('s, 'a) eff" where
  "throw = (\<lambda>s. (Inl TypeError, s))"

definition bnd :: "('s, 'a) eff \<Rightarrow> ('a \<Rightarrow> ('s, 'b) eff) \<Rightarrow> ('s, 'b) eff" where
  "bnd m f = (\<lambda>s. case m s of (Inl e, s') \<Rightarrow> (Inl e, s') | (Inr x, s') \<Rightarrow> f x s')"

text \<open>Reading a property of a value that may be \<open>undefined\<close>.\<close>

definition defined :: "'a option \<Rightarrow> ('s, 'a) eff" where
  "defined v = (case v of None \<Rightarrow> throw | Some x \<Rightarrow> ret x)"

text \<open>\<open>xs.forEach\<close> with an accumulator (a \<open>let\<close> variable updated by the callback).\<close>

fun forEach :: "('a \<Rightarrow> 'b \<Rightarrow> ('s, 'b) eff) \<Rightarrow> 'a list \<Rightarrow> 'b \<Rightarrow> ('s, 'b) eff" where
  "forEach f [] acc = ret acc"
| "forEach f (x # xs) acc = bnd (f x acc) (forEach f xs)"

text \<open>
  The store holds the objects the grid is made of: cell objects and arrays of references.
  An address is an index into the store; allocation appends. A grid is the address of an
  array of row arrays of cell objects.
\<close>

type_synonym addr = nat

datatype obj = Cell GridCell | Arr "addr list"

type_synonym heap = "obj list"

definition getArr :: "heap \<Rightarrow> addr \<Rightarrow> addr list option" where
  "getArr h a =
     (if a < length h then (case h ! a of Arr xs \<Rightarrow> Some xs | Cell _ \<Rightarrow> None) else None)"

definition getCell :: "heap \<Rightarrow> addr \<Rightarrow> GridCell option" where
  "getCell h a =
     (if a < length h then (case h ! a of Cell x \<Rightarrow> Some x | Arr _ \<Rightarrow> None) else None)"

definition readRow :: "heap \<Rightarrow> addr \<Rightarrow> GridCell list option" where
  "readRow h ra = Option.bind (getArr h ra) (\<lambda>cs. those (map (getCell h) cs))"

definition readGrid :: "heap \<Rightarrow> addr \<Rightarrow> grid option" where
  "readGrid h g = Option.bind (getArr h g) (\<lambda>rs. those (map (readRow h) rs))"

text \<open>The address of the cell object \<open>g[r][c]\<close>, and the cell read through it.\<close>

definition cellAddr :: "heap \<Rightarrow> addr \<Rightarrow> int \<Rightarrow> int \<Rightarrow> addr option" where
  "cellAddr h g r c =
     Option.bind (getArr h g) (\<lambda>rs.
     Option.bind (nth_opt rs r) (\<lambda>ra.
     Option.bind (getArr h ra) (\<lambda>cs. nth_opt cs c)))"

definition heapCellAt :: "heap \<Rightarrow> addr \<Rightarrow> int \<Rightarrow> int \<Rightarrow> GridCell option" where
  "heapCellAt h g r c = Option.bind (cellAddr h g r c) (getCell h)"

text \<open>
  \<open>grid.map(row => row.map(cell => ({ ...cell })))\<close>: a fresh cell object for every
  position, a fresh array for every row, a fresh outer array.
\<close>

definition allocRow :: "heap \<Rightarrow> GridCell list \<Rightarrow> addr \<times> heap" where
  "allocRow h cs =
     (length h + length cs,
      h @ map Cell cs @ [Arr [length h..<length h + length cs]])"

fun allocRows :: "heap \<Rightarrow> grid \<Rightarrow> addr list \<times> heap" where
  "allocRows h [] = ([], h)"
| "allocRows h (cs # rest) =
     (case allocRow h cs of (a, h1) \<Rightarrow>
        (case allocRows h1 rest of (as, h2) \<Rightarrow> (a # as, h2)))"

definition copyGrid :: "heap \<Rightarrow> grid \<Rightarrow> addr \<times> heap" where
  "copyGrid h grid = (case allocRows h grid of (as, h1) \<Rightarrow> (length h1, h1 @ [Arr as]))"

record 'p world =
  heap :: heap
  pos :: nat
  personalities :: "(PLAYER \<times> 'p) list"

text \<open>
  \<open>Math.random()\<close>: the source of random numbers is a fixed sequence \<open>rnd\<close> of draws;
  the world remembers how many have been taken.
\<close>

definition random :: "(nat \<Rightarrow> rat) \<Rightarrow> ('p world, rat) eff" where
  "random rnd = (\<lambda>w. (Inr (rnd (pos w)), w\<lparr>pos := Suc (pos w)\<rparr>))"

text \<open>
  Reading the whole grid behind a reference. A store in which the reference does not
  lead to an array of arrays of cells is outside the type \<open>GridCell[][]\<close>; the model
  raises there.
\<close>

definition readGridM :: "addr \<Rightarrow> ('p world, grid) eff" where
  "readGridM g = (\<lambda>w. defined (readGrid (heap w) g) w)"

definition copyGridM :: "grid \<Rightarrow> ('p world, addr) eff" where
  "copyGridM grid =
     (\<lambda>w. case copyGrid (heap w) grid of (a, h') \<Rightarrow> (Inr a, w\<lparr>heap := h'\<rparr>))"

definition cellAddrM :: "addr \<Rightarrow> int \<Rightarrow> int \<Rightarrow> ('p world, addr) eff" where
  "cellAddrM g r c = (\<lambda>w. defined (cellAddr (heap w) g r c) w)"

definition heapCellAtM :: "addr \<Rightarrow> int \<Rightarrow> int \<Rightarrow> ('p world, GridCell) eff" where
  "heapCellAtM g r c = (\<lambda>w. defined (heapCellAt (heap w) g r c) w)"

definition getCellM :: "addr \<Rightarrow> ('p world, GridCell) eff" where
  "getCellM a = (\<lambda>w. defined (getCell (heap w) a) w)"

definition setCellM :: "addr \<Rightarrow> GridCell \<Rightarrow> ('p world, unit) eff" where
  "setCellM a x = (\<lambda>w. (Inr (), w\<lparr>heap := (heap w)[a := Cell x]\<rparr>))"

section \<open>Chain-reaction simulator\<close>

text \<open>\<open>calculateCriticalMass\<close> is imported from the game utilities: a parameter.\<close>

definition getNeighborsForAI :: "int \<Rightarrow> int \<Rightarrow> int \<Rightarrow> int \<Rightarrow> (int \<times> int) list" where
  "getNeighborsForAI r c rows cols =
     filter (\<lambda>(nr, nc). nr \<ge> 0 \<and> nr < rows \<and> nc \<ge> 0 \<and> nc < cols)
       [(r - 1, c), (r + 1, c), (r, c - 1), (r, c + 1)]"

definition calculateChainReactionPotential ::
  "(int \<Rightarrow> int \<Rightarrow> int \<Rightarrow> int \<Rightarrow> int) \<Rightarrow> addr \<Rightarrow> int \<Rightarrow> int \<Rightarrow> PLAYER \<Rightarrow> ('p world, int) eff" where
  "calculateChainReactionPotential calculateCriticalMass g r c currentPlayer =
     bnd (readGridM g) (\<lambda>grid.
     bnd (defined (nth_opt grid 0)) (\<lambda>row0.
     let rows = int (length grid); cols = int (length row0) in
     bnd (copyGridM grid) (\<lambda>simulatedGrid.
     bnd (cellAddrM simulatedGrid r c) (\<lambda>cell.
     bnd (getCellM cell) (\<lambda>old.
     bnd (setCellM cell (old\<lparr>atoms := atoms old + 1, player := Some currentPlayer\<rparr>)) (\<lambda>_.
     if atoms old + 1 \<ge> calculateCriticalMass r c rows cols
     then forEach (\<lambda>(nr, nc) chainPotential.
            bnd (heapCellAtM simulatedGrid nr nc) (\<lambda>neighborCell.
            if atoms neighborCell + 1 \<ge> calculateCriticalMass nr nc rows cols
            then forEach (\<lambda>(nnr, nnc) chainPotential.
                   bnd (heapCellAtM simulatedGrid nnr nnc) (\<lambda>secondCell.
                   ret (if atoms secondCell + 1 \<ge> calculateCriticalMass nnr nnc rows cols
                        then chainPotential + 2 else chainPotential)))
                   (getNeighborsForAI nr nc rows cols) (chainPotential + 5)
            else ret chainPotential))
            (getNeighborsForAI r c rows cols) 0
     else ret 0))))))"

text \<open>
  \<open>simulateMove\<close> (used by the minimax search only): deep copy, then a new cell object
  is stored into the copied row array.
\<close>

definition setArrM :: "addr \<Rightarrow> addr list \<Rightarrow> ('p world, unit) eff" where
  "setArrM a xs = (\<lambda>w. (Inr (), w\<lparr>heap := (heap w)[a := Arr xs]\<rparr>))"

definition allocCellM :: "GridCell \<Rightarrow> ('p world, addr) eff" where
  "allocCellM x = (\<lambda>w. (Inr (length (heap w)), w\<lparr>heap := heap w @ [Cell x]\<rparr>))"

definition rowAddr :: "heap \<Rightarrow> addr \<Rightarrow> int \<Rightarrow> addr option" where
  "rowAddr h g r = Option.bind (getArr h g) (\<lambda>rs. nth_opt rs r)"

definition simulateMove :: "addr \<Rightarrow> int \<Rightarrow> int \<Rightarrow> PLAYER \<Rightarrow> ('p world, addr) eff" where
  "simulateMove g r c p =
     bnd (readGridM g) (\<lambda>grid.
     bnd (copyGridM grid) (\<lambda>newGrid.
     bnd (\<lambda>w. defined (rowAddr (heap w) newGrid r) w) (\<lambda>ra.
     bnd (\<lambda>w. defined (getArr (heap w) ra) w) (\<lambda>cs.
     bnd (heapCellAtM newGrid r c) (\<lambda>old.
     bnd (allocCellM \<lparr>atoms = atoms old + 1, player = Some p\<rparr>) (\<lambda>a.
     bnd (setArrM ra (cs[nat c := a])) (\<lambda>_.
     ret newGrid)))))))"

section \<open>Positional evaluator\<close>

record GameState =
  gs_grid :: addr
  gs_currentPlayer :: PLAYER
  gs_isBaseMode :: bool
  gs_hqs :: "HQCell list option"
  gs_powerUps :: "PowerUpCell list option"

record StrategicEvaluation =
  aggressiveScore :: rat
  defensiveScore :: rat
  powerUpScore :: rat
  chainReactionScore :: rat
  territoryScore :: rat
  baseThreatScore :: rat

text \<open>\<open>grid[r][c]\<close> on a snapshot of the grid; \<open>None\<close> when the read of a property of
  the result would raise.\<close>

definition cellAt :: "grid \<Rightarrow> int \<Rightarrow> int \<Rightarrow> GridCell option" where
  "cellAt grid r c = Option.bind (nth_opt grid r) (\<lambda>cells. nth_opt cells c)"

definition isEnemy :: "PLAYER \<Rightarrow> GridCell \<Rightarrow> bool" where
  "isEnemy currentPlayer cell = (player cell \<noteq> None \<and> player cell \<noteq> Some currentPlayer)"

text \<open>The positions visited by two nested \<open>for\<close> loops, rows outside, in visiting order.\<close>

definition window :: "int \<Rightarrow> int \<Rightarrow> int \<Rightarrow> int \<Rightarrow> (int \<times> int) list" where
  "window rlo rhi clo chi = concat (map (\<lambda>r. map (\<lambda>c. (r, c)) [clo..chi]) [rlo..rhi])"

text \<open>The cells at the given positions, or \<open>None\<close> if one of them is \<open>undefined\<close>
  (loops that read a property of every cell they visit and draw no random number).\<close>

definition cellsAt :: "grid \<Rightarrow> (int \<times> int) list \<Rightarrow> ((int \<times> int) \<times> GridCell) list option" where
  "cellsAt grid ps = those (map (\<lambda>(r, c). map_option (\<lambda>x. ((r, c), x)) (cellAt grid r c)) ps)"

text \<open>1. Power-up scoring.\<close>

definition powerUpScoring :: "GameState \<Rightarrow> int \<Rightarrow> int \<Rightarrow> rat" where
  "powerUpScoring gameState r c =
     (if gs_isBaseMode gameState then
        (case gs_powerUps gameState of
           None \<Rightarrow> 0
         | Some pus \<Rightarrow>
             (if find (\<lambda>pu. pu_row pu = r \<and> pu_col pu = c) pus \<noteq> None then 5000 else 0)
             + sum_list (map (\<lambda>powerUp.
                 let distanceToPowerUp = \<bar>pu_row powerUp - r\<bar> + \<bar>pu_col powerUp - c\<bar>
                 in if distanceToPowerUp \<le> 3 then of_int ((4 - distanceToPowerUp) * 500) else 0)
               pus))
      else 0)"

text \<open>2. Position scoring. The three bonuses are drawn first, in both modes.\<close>

definition isCorner :: "int \<Rightarrow> int \<Rightarrow> int \<Rightarrow> int \<Rightarrow> bool" where
  "isCorner r c rows cols = ((r = 0 \<or> r = rows - 1) \<and> (c = 0 \<or> c = cols - 1))"

definition isEdge :: "int \<Rightarrow> int \<Rightarrow> int \<Rightarrow> int \<Rightarrow> bool" where
  "isEdge r c rows cols = (r = 0 \<or> r = rows - 1 \<or> c = 0 \<or> c = cols - 1)"

definition positionBonus ::
  "(nat \<Rightarrow> rat) \<Rightarrow> bool \<Rightarrow> int \<Rightarrow> int \<Rightarrow> int \<Rightarrow> int \<Rightarrow> ('p world, rat) eff" where
  "positionBonus rnd isBaseMode r c rows cols =
     bnd (random rnd) (\<lambda>u1. bnd (random rnd) (\<lambda>u2. bnd (random rnd) (\<lambda>u3.
     let cornerBonus = (if isBaseMode then 1 + u1 * 6 else 20 + u1 * 20);
         edgeBonus = (if isBaseMode then 3 + u2 * 6 else 8 + u2 * 10);
         centerBonus = (if isBaseMode then 1 + u3 * 6 else 2 + u3 * 8)
     in ret (if isCorner r c rows cols then cornerBonus
             else if isEdge r c rows cols then edgeBonus else centerBonus))))"

definition enemyNeighborPenalty ::
  "(nat \<Rightarrow> rat) \<Rightarrow> grid \<Rightarrow> PLAYER \<Rightarrow> (int \<times> int) list \<Rightarrow> ('p world, rat) eff" where
  "enemyNeighborPenalty rnd grid currentPlayer neighbors =
     forEach (\<lambda>(nr, nc) penalty.
        bnd (defined (cellAt grid nr nc)) (\<lambda>neighborCell.
        if isEnemy currentPlayer neighborCell
        then bnd (random rnd) (\<lambda>u. ret (penalty + (10 + u * 10)))
        else ret penalty))
       neighbors 0"

definition isolationBonus ::
  "(nat \<Rightarrow> rat) \<Rightarrow> grid \<Rightarrow> PLAYER \<Rightarrow> (int \<times> int) list \<Rightarrow> ('p world, rat) eff" where
  "isolationBonus rnd grid currentPlayer neighbors =
     bnd (defined (cellsAt grid neighbors)) (\<lambda>cells.
     if list_ex (\<lambda>(_, neighborCell). player neighborCell = Some currentPlayer) cells
     then ret 0
     else bnd (random rnd) (\<lambda>u. ret (8 + u * 12)))"

text \<open>3. Immediate damage, placement strategy, enemy proximity.\<close>

definition immediateDamage :: "PLAYER \<Rightarrow> ((int \<times> int) \<times> GridCell) list \<Rightarrow> rat" where
  "immediateDamage currentPlayer neighborCells =
     sum_list (map (\<lambda>(_, neighborCell).
        if isEnemy currentPlayer neighborCell then of_int (atoms neighborCell * 100) else 0)
       neighborCells)"

definition immediateExplosionBonus :: "PLAYER \<Rightarrow> ((int \<times> int) \<times> GridCell) list \<Rightarrow> rat" where
  "immediateExplosionBonus currentPlayer neighborCells =
     sum_list (map (\<lambda>(_, neighborCell).
        if isEnemy currentPlayer neighborCell then 1000 else 0) neighborCells) + 200"

definition placementStrategyScore ::
  "(int \<Rightarrow> int \<Rightarrow> int \<Rightarrow> int \<Rightarrow> int) \<Rightarrow> PLAYER \<Rightarrow> GridCell \<Rightarrow> int \<Rightarrow> int \<Rightarrow> int
     \<Rightarrow> ((int \<times> int) \<times> GridCell) list \<Rightarrow> rat" where
  "placementStrategyScore calculateCriticalMass currentPlayer cell criticalMass rows cols neighborCells =
     (if isEnemy currentPlayer cell then - 300 else 0)
     + sum_list (map (\<lambda>((nr, nc), neighborCell).
         if isEnemy currentPlayer neighborCell then
           (let neighborCriticalMass = calculateCriticalMass nr nc rows cols;
                ourTimeToExplode = criticalMass - (atoms cell + 1);
                enemyTimeToExplode = neighborCriticalMass - atoms neighborCell
            in if ourTimeToExplode \<le> enemyTimeToExplode \<and> ourTimeToExplode \<ge> 0
               then of_int ((enemyTimeToExplode - ourTimeToExplode + 1) * 150) else 0)
         else 0)
       neighborCells)"

definition enemyProximityScore :: "PLAYER \<Rightarrow> int \<Rightarrow> int \<Rightarrow> ((int \<times> int) \<times> GridCell) list \<Rightarrow> rat" where
  "enemyProximityScore currentPlayer r c targetCells =
     sum_list (map (\<lambda>((tr, tc), targetCell).
        if isEnemy currentPlayer targetCell
        then of_int ((3 - (\<bar>tr - r\<bar> + \<bar>tc - c\<bar>)) * atoms targetCell * 2) else 0)
       targetCells)"

text \<open>4. Base threat.\<close>

definition baseThreatScoring :: "PLAYER \<Rightarrow> bool \<Rightarrow> int \<Rightarrow> int \<Rightarrow> HQCell list \<Rightarrow> rat" where
  "baseThreatScoring currentPlayer explodes r c hs =
     sum_list (map (\<lambda>hq.
        if hq_player hq \<noteq> currentPlayer then
          (let distanceToHQ = \<bar>hq_row hq - r\<bar> + \<bar>hq_col hq - c\<bar>
           in if distanceToHQ \<le> 3
              then of_int ((4 - distanceToHQ) * 20)
                   + (if explodes \<and> distanceToHQ \<le> 2
                      then (if hq_player hq = currentPlayer then 120 else 40) else 0)
              else 0)
        else 0)
       hs)"

text \<open>5. Defence of the own base.\<close>

definition enemyThreatNearBase :: "PLAYER \<Rightarrow> HQCell \<Rightarrow> ((int \<times> int) \<times> GridCell) list \<Rightarrow> int" where
  "enemyThreatNearBase currentPlayer ourHQ threatCells =
     sum_list (map (\<lambda>((tr, tc), threatCell).
        if isEnemy currentPlayer threatCell
        then atoms threatCell * max 1 (4 - (\<bar>tr - hq_row ourHQ\<bar> + \<bar>tc - hq_col ourHQ\<bar>)) * 8
        else 0)
       threatCells)"

definition criticalThreats :: "PLAYER \<Rightarrow> HQCell \<Rightarrow> ((int \<times> int) \<times> GridCell) list \<Rightarrow> int" where
  "criticalThreats currentPlayer ourHQ threatCells =
     sum_list (map (\<lambda>((tr, tc), threatCell).
        if isEnemy currentPlayer threatCell
           \<and> \<bar>tr - hq_row ourHQ\<bar> + \<bar>tc - hq_col ourHQ\<bar> \<le> 2 \<and> atoms threatCell \<ge> 2
        then atoms threatCell * 15 else 0)
       threatCells)"

definition defensiveScoring ::
  "PLAYER \<Rightarrow> HQCell \<Rightarrow> GridCell \<Rightarrow> int \<Rightarrow> int \<Rightarrow> ((int \<times> int) \<times> GridCell) list \<Rightarrow> rat" where
  "defensiveScoring currentPlayer ourHQ cell r c threatCells =
     (let distanceToOurHQ = \<bar>hq_row ourHQ - r\<bar> + \<bar>hq_col ourHQ - c\<bar>;
          threat = enemyThreatNearBase currentPlayer ourHQ threatCells;
          critical = criticalThreats currentPlayer ourHQ threatCells;
          response =
            (if threat > 0 then
               of_int (threat * (5 - min distanceToOurHQ 4) * 2)
               + (if critical > 0 \<and> distanceToOurHQ \<le> 3 then of_int (critical * 3) else 0)
               + (if isEnemy currentPlayer cell then 40 else 0)
               + (if distanceToOurHQ \<le> 2 then 30 else 0)
             else 0)
      in if hq_health ourHQ \<le> 2 then response * 2 else response)"

definition evaluateStrategicMove ::
  "(nat \<Rightarrow> rat) \<Rightarrow> (int \<Rightarrow> int \<Rightarrow> int \<Rightarrow> int \<Rightarrow> int) \<Rightarrow> addr \<Rightarrow> int \<Rightarrow> int \<Rightarrow> PLAYER \<Rightarrow> GameState
     \<Rightarrow> ('p world, StrategicEvaluation) eff" where
  "evaluateStrategicMove rnd calculateCriticalMass g r c currentPlayer gameState =
     bnd (readGridM g) (\<lambda>grid.
     bnd (defined (nth_opt grid 0)) (\<lambda>row0.
     bnd (defined (nth_opt grid r)) (\<lambda>cells.
     let rows = int (length grid); cols = int (length row0);
         criticalMass = calculateCriticalMass r c rows cols;
         neighbors = getNeighborsForAI r c rows cols
     in
     bnd (positionBonus rnd (gs_isBaseMode gameState) r c rows cols) (\<lambda>bonus.
     bnd (if gs_isBaseMode gameState then ret 0
          else enemyNeighborPenalty rnd grid currentPlayer neighbors) (\<lambda>penalty.
     bnd (if gs_isBaseMode gameState then ret 0
          else isolationBonus rnd grid currentPlayer neighbors) (\<lambda>isolation.
     bnd (defined (nth_opt cells c)) (\<lambda>cell.
     let explodes = (atoms cell + 1 \<ge> criticalMass) in
     bnd (if explodes then defined (cellsAt grid neighbors) else ret []) (\<lambda>blast.
     bnd (defined (cellsAt grid neighbors)) (\<lambda>neighborCells.
     bnd (if gs_isBaseMode gameState
          then defined (cellsAt grid
                 (window (max 0 (r - 2)) (min (rows - 1) (r + 2))
                         (max 0 (c - 2)) (min (cols - 1) (c + 2))))
          else ret []) (\<lambda>targetCells.
     bnd (case (if gs_isBaseMode gameState then gs_hqs gameState else None) of
            None \<Rightarrow> ret 0
          | Some hs \<Rightarrow>
              (case find (\<lambda>hq. hq_player hq = currentPlayer) hs of
                 None \<Rightarrow> ret 0
               | Some ourHQ \<Rightarrow>
                   bnd (defined (cellsAt grid
                          (window (max 0 (hq_row ourHQ - 3)) (min (rows - 1) (hq_row ourHQ + 3))
                                  (max 0 (hq_col ourHQ - 3)) (min (cols - 1) (hq_col ourHQ + 3)))))
                     (\<lambda>threatCells. ret (defensiveScoring currentPlayer ourHQ cell r c threatCells))))
         (\<lambda>defensive.
     bnd (calculateChainReactionPotential calculateCriticalMass g r c currentPlayer)
         (\<lambda>chainPotential.
     ret \<lparr>aggressiveScore =
            0 - penalty
            + (if explodes then immediateDamage currentPlayer blast else 0)
            + (if explodes then immediateExplosionBonus currentPlayer blast else 0)
            + (enemyProximityScore currentPlayer r c targetCells
               + placementStrategyScore calculateCriticalMass currentPlayer cell criticalMass
                   rows cols neighborCells),
          defensiveScore = defensive,
          powerUpScore = powerUpScoring gameState r c,
          chainReactionScore = of_int (chainPotential * 10),
          territoryScore = bonus + isolation,
          baseThreatScore =
            (case (if gs_isBaseMode gameState then gs_hqs gameState else None) of
               None \<Rightarrow> 0
             | Some hs \<Rightarrow> baseThreatScoring currentPlayer explodes r c hs)\<rparr>))))))))))))"

section \<open>Personality store\<close>

record AIPersonality =
  aggressiveness :: rat
  defensiveness :: rat
  baseHuntingThirst :: rat
  powerUpHunting :: rat
  territorialness :: rat
  cornerPreference :: rat
  spreadTendency :: rat
  targetEnemy :: "PLAYER option"

definition generateAIPersonality :: "(nat \<Rightarrow> rat) \<Rightarrow> ('p world, AIPersonality) eff" where
  "generateAIPersonality rnd =
     bnd (random rnd) (\<lambda>u0.
     let possibleEnemies = [RED, BLUE, ORANGE, BLACK];
         target = nth_opt possibleEnemies \<lfloor>u0 * of_nat (length possibleEnemies)\<rfloor> in
     bnd (random rnd) (\<lambda>u1. bnd (random rnd) (\<lambda>u2. bnd (random rnd) (\<lambda>u3.
     bnd (random rnd) (\<lambda>u4. bnd (random rnd) (\<lambda>u5. bnd (random rnd) (\<lambda>u6.
     bnd (random rnd) (\<lambda>u7.
     ret \<lparr>aggressiveness = 1.2 + u1 * 1.8,
          defensiveness = 0.8 + u2 * 2.2,
          baseHuntingThirst = 1.0 + u3 * 2.0,
          powerUpHunting = 2.5 + u4 * 0.5,
          territorialness = 0.8 + u5 * 1.7,
          cornerPreference = 0.3 + u6 * 1.2,
          spreadTendency = 1.0 + u7 * 1.5,
          targetEnemy = target\<rparr>))))))))"

text \<open>The table \<open>personalities\<close> is kept in insertion order, one entry per key.\<close>

definition getPersonality ::
  "(nat \<Rightarrow> rat) \<Rightarrow> PLAYER \<Rightarrow> (AIPersonality world, AIPersonality) eff" where
  "getPersonality rnd p =
     (\<lambda>w. case map_of (personalities w) p of
        Some personality \<Rightarrow> (Inr personality, w)
      | None \<Rightarrow>
          bnd (generateAIPersonality rnd) (\<lambda>personality.
          bnd (random rnd) (\<lambda>u.
          let possibleEnemies = filter (\<lambda>q. q \<noteq> p) [RED, BLUE, ORANGE, BLACK];
              personality' = personality
                \<lparr>targetEnemy := nth_opt possibleEnemies \<lfloor>u * of_nat (length possibleEnemies)\<rfloor>\<rparr>
          in (\<lambda>w'. (Inr personality',
                     w'\<lparr>personalities := personalities w' @ [(p, personality')]\<rparr>)))) w)"

definition resetPersonalities :: "'p world \<Rightarrow> 'p world" where
  "resetPersonalities w = w\<lparr>personalities := []\<rparr>"

section \<open>Personality-weighted scorer\<close>

text \<open>The whole-board branch (\<open>row === -1 && col === -1\<close>) serves the minimax leaves.\<close>

definition fullBoardScore :: "grid \<Rightarrow> PLAYER \<Rightarrow> rat option" where
  "fullBoardScore grid currentPlayer =
     (case grid of
        [] \<Rightarrow> Some 0
      | row0 # _ \<Rightarrow>
          map_option (\<lambda>cells. sum_list (map (\<lambda>(_, x).
                if player x = Some currentPlayer then of_int (atoms x * 10) else 0) cells))
            (cellsAt grid (window 0 (int (length grid) - 1) 0 (int (length row0) - 1))))"

definition targetHQOf :: "GameState \<Rightarrow> AIPersonality \<Rightarrow> HQCell option" where
  "targetHQOf gameState personality =
     (if gs_isBaseMode gameState then
        (case gs_hqs gameState of
           None \<Rightarrow> None
         | Some hs \<Rightarrow>
             (case targetEnemy personality of
                None \<Rightarrow> None
              | Some t \<Rightarrow> find (\<lambda>hq. hq_player hq = t) hs))
      else None)"

definition evaluateMove ::
  "(nat \<Rightarrow> rat) \<Rightarrow> (int \<Rightarrow> int \<Rightarrow> int \<Rightarrow> int \<Rightarrow> int) \<Rightarrow> addr \<Rightarrow> int \<Rightarrow> int \<Rightarrow> PLAYER \<Rightarrow> GameState
     \<Rightarrow> (AIPersonality world, rat) eff" where
  "evaluateMove rnd calculateCriticalMass g r c currentPlayer gameState =
     (if r = - 1 \<and> c = - 1
      then bnd (readGridM g) (\<lambda>grid. defined (fullBoardScore grid currentPlayer))
      else
        bnd (evaluateStrategicMove rnd calculateCriticalMass g r c currentPlayer gameState)
          (\<lambda>evaluation.
        bnd (getPersonality rnd currentPlayer) (\<lambda>personality.
        let targetHQ = targetHQOf gameState personality;
            targetEnemyBonus =
              (case targetHQ of
                 None \<Rightarrow> 0
               | Some hq \<Rightarrow>
                   (let distanceToTarget = \<bar>hq_row hq - r\<bar> + \<bar>hq_col hq - c\<bar>
                    in if distanceToTarget \<le> 3
                       then of_int ((4 - distanceToTarget) * 50) * baseHuntingThirst personality
                       else 0));
            baseThreat =
              (case targetHQ of
                 None \<Rightarrow> baseThreatScore evaluation
               | Some hq \<Rightarrow>
                   if Some (hq_player hq) = targetEnemy personality
                   then baseThreatScore evaluation * 2 else baseThreatScore evaluation);
            powerUpMultiplier = max 1.0 (powerUpHunting personality);
            baseScore =
              powerUpScore evaluation * powerUpMultiplier
              + aggressiveScore evaluation * aggressiveness personality * 2.5
              + baseThreat * aggressiveness personality * baseHuntingThirst personality * 2.0
              + defensiveScore evaluation * defensiveness personality * 2.0
              + territoryScore evaluation * territorialness personality
                  * cornerPreference personality * 0.5
              + chainReactionScore evaluation * baseHuntingThirst personality * 1.3
              + targetEnemyBonus;
            baseRandomness = baseHuntingThirst personality * 0.3
        in
        bnd (random rnd) (\<lambda>u1.
        let randomness = (u1 - 0.5) * 2 * baseRandomness;
            baseScore1 = baseScore + randomness * max 15 (\<bar>baseScore\<bar> * 0.2)
        in
        bnd (random rnd) (\<lambda>u2.
        let chaosBonus = (u2 - 0.5) * 25 * baseHuntingThirst personality
        in ret (baseScore1 + chaosBonus))))))"

section \<open>Search engine and move selector\<close>

fun collectValid :: "(int \<Rightarrow> int \<Rightarrow> error + bool) \<Rightarrow> (int \<times> int) list \<Rightarrow> error + AIMove list" where
  "collectValid valid [] = Inr []"
| "collectValid valid ((r, c) # ps) =
     (case valid r c of
        Inl e \<Rightarrow> Inl e
      | Inr b \<Rightarrow>
          (case collectValid valid ps of
             Inl e \<Rightarrow> Inl e
           | Inr moves \<Rightarrow> Inr (if b then \<lparr>row = r, col = c, score = 0\<rparr> # moves else moves)))"

definition getValidMoves ::
  "(int \<Rightarrow> int \<Rightarrow> int \<Rightarrow> int \<Rightarrow> bool) \<Rightarrow> grid \<Rightarrow> PLAYER \<Rightarrow> bool \<Rightarrow> HQCell list option
     \<Rightarrow> error + AIMove list" where
  "getValidMoves isAdjacentTo grid p isBaseMode hqs =
     (case grid of
        [] \<Rightarrow> Inr []
      | row0 # _ \<Rightarrow>
          collectValid (\<lambda>r c. isValidMoveForAI isAdjacentTo grid r c p isBaseMode hqs)
            (window 0 (int (length grid) - 1) 0 (int (length row0) - 1)))"

definition getNextPlayer :: "PLAYER \<Rightarrow> PLAYER" where
  "getNextPlayer current =
     (case current of RED \<Rightarrow> BLUE | BLUE \<Rightarrow> ORANGE | ORANGE \<Rightarrow> BLACK | BLACK \<Rightarrow> RED)"

text \<open>\<open>for (const move of validMoves) move.score = this.evaluateMove(...)\<close>\<close>

fun scoreMoves ::
  "(nat \<Rightarrow> rat) \<Rightarrow> (int \<Rightarrow> int \<Rightarrow> int \<Rightarrow> int \<Rightarrow> int) \<Rightarrow> addr \<Rightarrow> PLAYER \<Rightarrow> GameState \<Rightarrow> AIMove list
     \<Rightarrow> (AIPersonality world, AIMove list) eff" where
  "scoreMoves rnd cm g currentPlayer gameState [] = ret []"
| "scoreMoves rnd cm g currentPlayer gameState (move # moves) =
     bnd (evaluateMove rnd cm g (row move) (col move) currentPlayer gameState) (\<lambda>s.
     bnd (scoreMoves rnd cm g currentPlayer gameState moves) (\<lambda>moves'.
     ret (move\<lparr>score := s\<rparr> # moves')))"

text \<open>\<open>validMoves.sort((a, b) => b.score - a.score)\<close>: stable, highest score first.\<close>

definition sortByScore :: "AIMove list \<Rightarrow> AIMove list" where
  "sortByScore moves = sort_key (\<lambda>m. - score m) moves"

text \<open>The scan for a critical threat near the own base stops at the first hit.\<close>

fun criticalThreat :: "grid \<Rightarrow> PLAYER \<Rightarrow> (int \<times> int) list \<Rightarrow> error + bool" where
  "criticalThreat grid currentPlayer [] = Inr False"
| "criticalThreat grid currentPlayer ((r, c) # ps) =
     (case cellAt grid r c of
        None \<Rightarrow> Inl TypeError
      | Some threatCell \<Rightarrow>
          if isEnemy currentPlayer threatCell \<and> atoms threatCell \<ge> 2 then Inr True
          else criticalThreat grid currentPlayer ps)"

definition liftE :: "error + 'a \<Rightarrow> ('s, 'a) eff" where
  "liftE v = (case v of Inl e \<Rightarrow> throw | Inr x \<Rightarrow> ret x)"

definition onPowerUp :: "PowerUpCell list \<Rightarrow> AIMove \<Rightarrow> bool" where
  "onPowerUp pus move = (find (\<lambda>pu. pu_row pu = row move \<and> pu_col pu = col move) pus \<noteq> None)"

definition defensiveBonus :: "HQCell \<Rightarrow> AIMove \<Rightarrow> AIMove" where
  "defensiveBonus ourHQ move =
     (let distanceToHQ = \<bar>row move - hq_row ourHQ\<bar> + \<bar>col move - hq_col ourHQ\<bar>
      in if distanceToHQ \<le> 2 then move\<lparr>score := score move + 2000\<rparr> else move)"

definition defensiveResort :: "grid \<Rightarrow> PLAYER \<Rightarrow> bool \<Rightarrow> HQCell list option \<Rightarrow> AIMove list
     \<Rightarrow> error + AIMove list" where
  "defensiveResort grid currentPlayer isBaseMode hqs validMoves =
     (case (if isBaseMode then hqs else None) of
        None \<Rightarrow> Inr validMoves
      | Some hs \<Rightarrow>
          (case find (\<lambda>hq. hq_player hq = currentPlayer) hs of
             None \<Rightarrow> Inr validMoves
           | Some ourHQ \<Rightarrow>
               (case nth_opt grid 0 of
                  None \<Rightarrow> Inl TypeError
                | Some row0 \<Rightarrow>
                    (case criticalThreat grid currentPlayer
                            (window (max 0 (hq_row ourHQ - 2))
                                    (min (int (length grid) - 1) (hq_row ourHQ + 2))
                                    (max 0 (hq_col ourHQ - 2))
                                    (min (int (length row0) - 1) (hq_col ourHQ + 2))) of
                       Inl e \<Rightarrow> Inl e
                     | Inr False \<Rightarrow> Inr validMoves
                     | Inr True \<Rightarrow>
                         Inr (sortByScore (map (defensiveBonus ourHQ) validMoves))))))"

definition topMoveCount :: "AIMove list \<Rightarrow> int" where
  "topMoveCount validMoves = max 1 (min 3 (int (length validMoves)))"

definition getBestMove ::
  "(nat \<Rightarrow> rat) \<Rightarrow> (int \<Rightarrow> int \<Rightarrow> int \<Rightarrow> int \<Rightarrow> int) \<Rightarrow> (int \<Rightarrow> int \<Rightarrow> int \<Rightarrow> int \<Rightarrow> bool)
     \<Rightarrow> addr \<Rightarrow> PLAYER \<Rightarrow> bool \<Rightarrow> HQCell list option \<Rightarrow> PowerUpCell list option
     \<Rightarrow> (AIPersonality world, AIMove option) eff" where
  "getBestMove rnd calculateCriticalMass isAdjacentTo g currentPlayer isBaseMode hqs powerUps =
     bnd (getPersonality rnd currentPlayer) (\<lambda>personality.
     let gameState = \<lparr>gs_grid = g, gs_currentPlayer = currentPlayer,
                      gs_isBaseMode = isBaseMode, gs_hqs = hqs, gs_powerUps = powerUps\<rparr> in
     bnd (readGridM g) (\<lambda>grid.
     bnd (liftE (getValidMoves isAdjacentTo grid currentPlayer isBaseMode hqs)) (\<lambda>validMoves.
     if validMoves = [] then ret None
     else
       (case (if isBaseMode then
                (case powerUps of None \<Rightarrow> None | Some pus \<Rightarrow> find (onPowerUp pus) validMoves)
              else None) of
          Some move \<Rightarrow> ret (Some (move\<lparr>score := 10000\<rparr>))
        | None \<Rightarrow>
            bnd (scoreMoves rnd calculateCriticalMass g currentPlayer gameState validMoves)
              (\<lambda>scored.
            bnd (readGridM g) (\<lambda>grid'.
            bnd (liftE (defensiveResort grid' currentPlayer isBaseMode hqs (sortByScore scored)))
              (\<lambda>ranked.
            bnd (random rnd) (\<lambda>u.
            let bestMoveIndex = \<lfloor>u * of_int (topMoveCount ranked)\<rfloor> in
            bnd (defined (nth_opt ranked bestMoveIndex)) (\<lambda>bestMove.
            ret (Some bestMove))))))))))"

text \<open>The entry point: any exception of the selector becomes "no move".\<close>

definition getAIMove ::
  "(nat \<Rightarrow> rat) \<Rightarrow> (int \<Rightarrow> int \<Rightarrow> int \<Rightarrow> int \<Rightarrow> int) \<Rightarrow> (int \<Rightarrow> int \<Rightarrow> int \<Rightarrow> int \<Rightarrow> bool)
     \<Rightarrow> addr \<Rightarrow> PLAYER \<Rightarrow> bool \<Rightarrow> HQCell list option \<Rightarrow> PowerUpCell list option
     \<Rightarrow> AIPersonality world \<Rightarrow> AIMove option \<times> AIPersonality world" where
  "getAIMove rnd calculateCriticalMass isAdjacentTo g currentPlayer isBaseMode hqs powerUps w =
     (case getBestMove rnd calculateCriticalMass isAdjacentTo g currentPlayer isBaseMode hqs
             powerUps w of
        (Inl e, w') \<Rightarrow> (None, w')
      | (Inr move, w') \<Rightarrow> (move, w'))"

section \<open>Well-formed boards\<close>

text \<open>The board of the game is rectangular: every row has the length of the first.\<close>

definition rectangular :: "grid \<Rightarrow> bool" where
  "rectangular grid = list_all (\<lambda>cells. length cells = length (hd grid)) grid"

section \<open>Vocabulary of the store proofs\<close>

text \<open>
  \<open>copyOf h as css grid\<close>: in the store \<open>h\<close> the row arrays at the addresses \<open>as\<close>
  hold the cell addresses \<open>css\<close>, and the cell objects there hold the cells of \<open>grid\<close>.
\<close>

definition copyOf :: "heap \<Rightarrow> addr list \<Rightarrow> addr list list \<Rightarrow> grid \<Rightarrow> bool" where
  "copyOf h as css grid \<longleftrightarrow>
     list_all2 (\<lambda>a cs. getArr h a = Some cs) as css
     \<and> list_all2 (\<lambda>cs cells. list_all2 (\<lambda>b x. getCell h b = Some x) cs cells) css grid"


text \<open>
  The simulator's result written as a function of the grid's contents alone:
  \<open>atomsAfter\<close> is the atom count the simulated grid shows at a cell after the
  placement at \<open>(r0, c0)\<close>.
\<close>

definition atomsAfter :: "grid \<Rightarrow> int \<Rightarrow> int \<Rightarrow> int \<Rightarrow> int \<Rightarrow> int" where
  "atomsAfter grid r0 c0 r c =
     (case cellAt grid r c of
        None \<Rightarrow> 0
      | Some x \<Rightarrow> if r = r0 \<and> c = c0 then atoms x + 1 else atoms x)"

definition wouldExplode ::
  "(int \<Rightarrow> int \<Rightarrow> int \<Rightarrow> int \<Rightarrow> int) \<Rightarrow> grid \<Rightarrow> int \<Rightarrow> int \<Rightarrow> int \<times> int \<Rightarrow> bool" where
  "wouldExplode cm grid r0 c0 n =
     (atomsAfter grid r0 c0 (fst n) (snd n) + 1
        \<ge> cm (fst n) (snd n) (int (length grid)) (int (length (hd grid))))"

definition chainValue :: "(int \<Rightarrow> int \<Rightarrow> int \<Rightarrow> int \<Rightarrow> int) \<Rightarrow> grid \<Rightarrow> int \<Rightarrow> int \<Rightarrow> int" where
  "chainValue cm grid r c =
     (let rows = int (length grid); cols = int (length (hd grid)) in
      if atomsAfter grid r c r c \<ge> cm r c rows cols
      then sum_list (map (\<lambda>n.
             if wouldExplode cm grid r c n
             then 5 + sum_list (map (\<lambda>n2. if wouldExplode cm grid r c n2 then 2 else 0)
                         (getNeighborsForAI (fst n) (snd n) rows cols))
             else 0)
            (getNeighborsForAI r c rows cols))
      else 0)"

text \<open>
  \<open>keeps n m\<close>: run in a world whose store has at least \<open>n\<close> objects, the computation
  \<open>m\<close> leaves the first \<open>n\<close> objects of the store as they are, whether it returns or
  raises.
\<close>

definition keeps :: "nat \<Rightarrow> ('p world, 'a) eff \<Rightarrow> bool" where
  "keeps n m \<longleftrightarrow>
     (\<forall>w. n \<le> length (heap w) \<longrightarrow> take n (heap (snd (m w))) = take n (heap w))"

section \<open>The second copy of the engine (source file part_000)\<close>

text \<open>
  The repository holds a second copy of the engine with another tuning.
  \<open>isValidMoveForAI\<close>, \<open>getNeighborsForAI\<close>, \<open>calculateChainReactionPotential\<close>, the
  position scoring, the defensive scoring and the text of \<open>getAIMove\<close> are the same there.
  The functions that differ are modelled here under the name the source gives them,
  followed by \<open>0\<close>: the personality has a \<open>riskTaking\<close> trait and no target enemy, the
  selector has neither the power-up override nor the defensive re-sort, it validates and
  scores in one loop, and it samples from a window that depends on \<open>riskTaking\<close>.
\<close>

record AIPersonality0 =
  aggressiveness0 :: rat
  defensiveness0 :: rat
  riskTaking :: rat
  powerUpHunting0 :: rat
  territorialness0 :: rat
  cornerPreference0 :: rat
  spreadTendency0 :: rat

definition generateAIPersonality0 :: "(nat \<Rightarrow> rat) \<Rightarrow> ('p world, AIPersonality0) eff" where
  "generateAIPersonality0 rnd =
     bnd (random rnd) (\<lambda>u1. bnd (random rnd) (\<lambda>u2. bnd (random rnd) (\<lambda>u3.
     bnd (random rnd) (\<lambda>u4. bnd (random rnd) (\<lambda>u5. bnd (random rnd) (\<lambda>u6.
     bnd (random rnd) (\<lambda>u7.
     ret \<lparr>aggressiveness0 = 0.2 + u1 * 2.3,
          defensiveness0 = 0.2 + u2 * 2.3,
          riskTaking = 0.2 + u3 * 2.3,
          powerUpHunting0 = 0.8 + u4 * 2.2,
          territorialness0 = 0.2 + u5 * 2.3,
          cornerPreference0 = 0.1 + u6 * 1.9,
          spreadTendency0 = 0.2 + u7 * 2.3\<rparr>)))))))"

definition getPersonality0 ::
  "(nat \<Rightarrow> rat) \<Rightarrow> PLAYER \<Rightarrow> (AIPersonality0 world, AIPersonality0) eff" where
  "getPersonality0 rnd p =
     (\<lambda>w. case map_of (personalities w) p of
        Some personality \<Rightarrow> (Inr personality, w)
      | None \<Rightarrow>
          bnd (generateAIPersonality0 rnd) (\<lambda>personality.
          (\<lambda>w'. (Inr personality,
                  w'\<lparr>personalities := personalities w' @ [(p, personality)]\<rparr>))) w)"

definition powerUpScoring0 :: "GameState \<Rightarrow> int \<Rightarrow> int \<Rightarrow> rat" where
  "powerUpScoring0 gameState r c =
     (if gs_isBaseMode gameState then
        (case gs_powerUps gameState of
           None \<Rightarrow> 0
         | Some pus \<Rightarrow>
             (case find (\<lambda>pu. pu_row pu = r \<and> pu_col pu = c) pus of
                None \<Rightarrow> 0
              | Some powerUpAtPosition \<Rightarrow>
                  if pu_type powerUpAtPosition = Diamond then 150 else 150)
             + sum_list (map (\<lambda>powerUp.
                 let distanceToPowerUp = \<bar>pu_row powerUp - r\<bar> + \<bar>pu_col powerUp - c\<bar>
                 in if distanceToPowerUp \<le> 3 then of_int ((4 - distanceToPowerUp) * 25) else 0)
               pus))
      else 0)"

definition captureScore0 :: "PLAYER \<Rightarrow> ((int \<times> int) \<times> GridCell) list \<Rightarrow> rat" where
  "captureScore0 currentPlayer neighborCells =
     sum_list (map (\<lambda>(_, neighborCell).
        if isEnemy currentPlayer neighborCell then of_int (15 * atoms neighborCell) else 0)
       neighborCells)"

definition baseThreatScoring0 :: "PLAYER \<Rightarrow> bool \<Rightarrow> int \<Rightarrow> int \<Rightarrow> HQCell list \<Rightarrow> rat" where
  "baseThreatScoring0 currentPlayer explodes r c hs =
     sum_list (map (\<lambda>hq.
        if hq_player hq \<noteq> currentPlayer then
          (let distanceToHQ = \<bar>hq_row hq - r\<bar> + \<bar>hq_col hq - c\<bar>
           in if distanceToHQ \<le> 3
              then of_int ((4 - distanceToHQ) * 20)
                   + (if explodes \<and> distanceToHQ \<le> 2 then 40 else 0)
              else 0)
        else 0)
       hs)"

definition evaluateStrategicMove0 ::
  "(nat \<Rightarrow> rat) \<Rightarrow> (int \<Rightarrow> int \<Rightarrow> int \<Rightarrow> int \<Rightarrow> int) \<Rightarrow> addr \<Rightarrow> int \<Rightarrow> int \<Rightarrow> PLAYER \<Rightarrow> GameState
     \<Rightarrow> ('p world, StrategicEvaluation) eff" where
  "evaluateStrategicMove0 rnd calculateCriticalMass g r c currentPlayer gameState =
     bnd (readGridM g) (\<lambda>grid.
     bnd (defined (nth_opt grid 0)) (\<lambda>row0.
     bnd (defined (nth_opt grid r)) (\<lambda>cells.
     let rows = int (length grid); cols = int (length row0);
         criticalMass = calculateCriticalMass r c rows cols;
         neighbors = getNeighborsForAI r c rows cols
     in
     bnd (positionBonus rnd (gs_isBaseMode gameState) r c rows cols) (\<lambda>bonus.
     bnd (if gs_isBaseMode gameState then ret 0
          else enemyNeighborPenalty rnd grid currentPlayer neighbors) (\<lambda>penalty.
     bnd (if gs_isBaseMode gameState then ret 0
          else isolationBonus rnd grid currentPlayer neighbors) (\<lambda>isolation.
     bnd (defined (nth_opt cells c)) (\<lambda>cell.
     let explodes = (atoms cell + 1 \<ge> criticalMass) in
     bnd (if explodes then defined (cellsAt grid neighbors) else ret []) (\<lambda>blast.
     bnd (if gs_isBaseMode gameState
          then defined (cellsAt grid
                 (window (max 0 (r - 2)) (min (rows - 1) (r + 2))
                         (max 0 (c - 2)) (min (cols - 1) (c + 2))))
          else ret []) (\<lambda>targetCells.
     bnd (case (if gs_isBaseMode gameState then gs_hqs gameState else None) of
            None \<Rightarrow> ret 0
          | Some hs \<Rightarrow>
              (case find (\<lambda>hq. hq_player hq = currentPlayer) hs of
                 None \<Rightarrow> ret 0
               | Some ourHQ \<Rightarrow>
                   bnd (defined (cellsAt grid
                          (window (max 0 (hq_row ourHQ - 3)) (min (rows - 1) (hq_row ourHQ + 3))
                                  (max 0 (hq_col ourHQ - 3)) (min (cols - 1) (hq_col ourHQ + 3)))))
                     (\<lambda>threatCells. ret (defensiveScoring currentPlayer ourHQ cell r c threatCells))))
         (\<lambda>defensive.
     bnd (calculateChainReactionPotential calculateCriticalMass g r c currentPlayer)
         (\<lambda>chainPotential.
     ret \<lparr>aggressiveScore =
            0 - penalty
            + (if explodes then captureScore0 currentPlayer blast else 0)
            + enemyProximityScore currentPlayer r c targetCells,
          defensiveScore = defensive,
          powerUpScore = powerUpScoring0 gameState r c,
          chainReactionScore = of_int (chainPotential * 10),
          territoryScore = bonus + isolation,
          baseThreatScore =
            (case (if gs_isBaseMode gameState then gs_hqs gameState else None) of
               None \<Rightarrow> 0
             | Some hs \<Rightarrow> baseThreatScoring0 currentPlayer explodes r c hs)\<rparr>)))))))))))"

definition evaluateMove0 ::
  "(nat \<Rightarrow> rat) \<Rightarrow> (int \<Rightarrow> int \<Rightarrow> int \<Rightarrow> int \<Rightarrow> int) \<Rightarrow> addr \<Rightarrow> int \<Rightarrow> int \<Rightarrow> PLAYER \<Rightarrow> GameState
     \<Rightarrow> (AIPersonality0 world, rat) eff" where
  "evaluateMove0 rnd calculateCriticalMass g r c currentPlayer gameState =
     bnd (evaluateStrategicMove0 rnd calculateCriticalMass g r c currentPlayer gameState)
       (\<lambda>evaluation.
     bnd (getPersonality0 rnd currentPlayer) (\<lambda>personality.
     let baseScore =
           powerUpScore evaluation * powerUpHunting0 personality * 1.8
           + territoryScore evaluation * territorialness0 personality
               * cornerPreference0 personality * 0.8
           + defensiveScore evaluation * defensiveness0 personality * 2.0
           + aggressiveScore evaluation * aggressiveness0 personality * 1.5
           + baseThreatScore evaluation * aggressiveness0 personality * riskTaking personality * 1.2
           + chainReactionScore evaluation * riskTaking personality * 1.3;
         baseRandomness = riskTaking personality * 0.3
     in
     bnd (random rnd) (\<lambda>u1.
     let randomness = (u1 - 0.5) * 2 * baseRandomness;
         baseScore1 = baseScore + randomness * max 15 (\<bar>baseScore\<bar> * 0.2)
     in
     bnd (random rnd) (\<lambda>u2.
     let chaosBonus = (u2 - 0.5) * 25 * riskTaking personality
     in ret (baseScore1 + chaosBonus)))))"

text \<open>The loop of the selector: a cell is validated and, when valid, scored at once.\<close>

fun collectScored0 ::
  "(nat \<Rightarrow> rat) \<Rightarrow> (int \<Rightarrow> int \<Rightarrow> int \<Rightarrow> int \<Rightarrow> int) \<Rightarrow> (int \<Rightarrow> int \<Rightarrow> int \<Rightarrow> int \<Rightarrow> bool)
     \<Rightarrow> addr \<Rightarrow> PLAYER \<Rightarrow> bool \<Rightarrow> HQCell list option \<Rightarrow> GameState \<Rightarrow> (int \<times> int) list
     \<Rightarrow> (AIPersonality0 world, AIMove list) eff" where
  "collectScored0 rnd cm isAdjacentTo g currentPlayer isBaseMode hqs gameState [] = ret []"
| "collectScored0 rnd cm isAdjacentTo g currentPlayer isBaseMode hqs gameState ((r, c) # ps) =
     bnd (readGridM g) (\<lambda>grid.
     bnd (liftE (isValidMoveForAI isAdjacentTo grid r c currentPlayer isBaseMode hqs)) (\<lambda>valid.
     if valid
     then bnd (evaluateMove0 rnd cm g r c currentPlayer gameState) (\<lambda>s.
          bnd (collectScored0 rnd cm isAdjacentTo g currentPlayer isBaseMode hqs gameState ps)
            (\<lambda>moves. ret (\<lparr>row = r, col = c, score = s\<rparr> # moves)))
     else collectScored0 rnd cm isAdjacentTo g currentPlayer isBaseMode hqs gameState ps))"

definition topMoves :: "AIPersonality0 \<Rightarrow> AIMove list \<Rightarrow> int" where
  "topMoves personality validMoves =
     (let selectionRandomness = riskTaking personality * 0.4
      in max 1 \<lceil>of_nat (length validMoves) * (0.1 + selectionRandomness)\<rceil>)"

definition getBestMove0 ::
  "(nat \<Rightarrow> rat) \<Rightarrow> (int \<Rightarrow> int \<Rightarrow> int \<Rightarrow> int \<Rightarrow> int) \<Rightarrow> (int \<Rightarrow> int \<Rightarrow> int \<Rightarrow> int \<Rightarrow> bool)
     \<Rightarrow> addr \<Rightarrow> PLAYER \<Rightarrow> bool \<Rightarrow> HQCell list option \<Rightarrow> PowerUpCell list option
     \<Rightarrow> (AIPersonality0 world, AIMove option) eff" where
  "getBestMove0 rnd calculateCriticalMass isAdjacentTo g currentPlayer isBaseMode hqs powerUps =
     bnd (getPersonality0 rnd currentPlayer) (\<lambda>personality.
     let gameState = \<lparr>gs_grid = g, gs_currentPlayer = currentPlayer,
                      gs_isBaseMode = isBaseMode, gs_hqs = hqs, gs_powerUps = powerUps\<rparr> in
     bnd (readGridM g) (\<lambda>grid.
     bnd (defined (nth_opt grid 0)) (\<lambda>row0.
     bnd (collectScored0 rnd calculateCriticalMass isAdjacentTo g currentPlayer isBaseMode hqs
            gameState (window 0 (int (length grid) - 1) 0 (int (length row0) - 1)))
       (\<lambda>validMoves.
     if validMoves = [] then ret None
     else
       (let ranked = sortByScore validMoves in
        bnd (random rnd) (\<lambda>u.
        let bestMoveIndex =
              \<lfloor>u * of_int (min (topMoves personality ranked) (int (length ranked)))\<rfloor> in
        bnd (defined (nth_opt ranked bestMoveIndex)) (\<lambda>bestMove.
        ret (Some bestMove))))))))"

definition getAIMove0 ::
  "(nat \<Rightarrow> rat) \<Rightarrow> (int \<Rightarrow> int \<Rightarrow> int \<Rightarrow> int \<Rightarrow> int) \<Rightarrow> (int \<Rightarrow> int \<Rightarrow> int \<Rightarrow> int \<Rightarrow> bool)
     \<Rightarrow> addr \<Rightarrow> PLAYER \<Rightarrow> bool \<Rightarrow> HQCell list option \<Rightarrow> PowerUpCell list option
     \<Rightarrow> AIPersonality0 world \<Rightarrow> AIMove option \<times> AIPersonality0 world" where
  "getAIMove0 rnd calculateCriticalMass isAdjacentTo g currentPlayer isBaseMode hqs powerUps w =
     (case getBestMove0 rnd calculateCriticalMass isAdjacentTo g currentPlayer isBaseMode hqs
             powerUps w of
        (Inl e, w') \<Rightarrow> (None, w')
      | (Inr move, w') \<Rightarrow> (move, w'))"

section \<open>Concrete instances used by the examples\<close>

text \<open>
  An instance of the imported geometry for the examples below: adjacency to the eight
  surrounding cells, and the usual critical mass of the game (the number of orthogonal
  neighbours: 4 in the interior, 3 on an edge, 2 in a corner).
\<close>

definition adj8 :: "int \<Rightarrow> int \<Rightarrow> int \<Rightarrow> int \<Rightarrow> bool" where
  "adj8 r c r2 c2 = (\<bar>r - r2\<bar> \<le> 1 \<and> \<bar>c - c2\<bar> \<le> 1 \<and> (r, c) \<noteq> (r2, c2))"

definition neighbourCount :: "int \<Rightarrow> int \<Rightarrow> int \<Rightarrow> int \<Rightarrow> int" where
  "neighbourCount r c rows cols =
     4 - (if r = 0 \<or> r = rows - 1 then 1 else 0) - (if c = 0 \<or> c = cols - 1 then 1 else 0)"

definition emptyCell :: GridCell where
  "emptyCell = \<lparr>atoms = 0, player = None\<rparr>"

text \<open>A one-cell board whose only cell belongs to BLUE.\<close>

definition fullBoard :: "AIPersonality world" where
  "fullBoard = \<lparr>heap = [Cell \<lparr>atoms = 1, player = Some BLUE\<rparr>, Arr [0], Arr [1]],
                pos = 0, personalities = []\<rparr>"

text \<open>A 2 x 2 board with one BLUE atom in the lower right corner, and a RED base in
  the upper left corner.\<close>

definition board22 :: "AIPersonality world" where
  "board22 = \<lparr>heap = [Cell emptyCell, Cell emptyCell, Arr [0, 1],
                        Cell emptyCell, Cell \<lparr>atoms = 1, player = Some BLUE\<rparr>, Arr [3, 4],
                        Arr [2, 5]],
              pos = 0, personalities = []\<rparr>"

definition grid22 :: grid where
  "grid22 = [[emptyCell, emptyCell], [emptyCell, \<lparr>atoms = 1, player = Some BLUE\<rparr>]]"


text \<open>Two 2 x 2 boards that differ in the atom count of the cell right of the upper
  left corner (0 and 1); RED holds one atom in that corner.\<close>

definition mono22a :: "AIPersonality world" where
  "mono22a = \<lparr>heap = [Cell \<lparr>atoms = 1, player = Some RED\<rparr>, Cell emptyCell, Arr [0, 1],
                        Cell emptyCell, Cell emptyCell, Arr [3, 4],
                        Arr [2, 5]],
              pos = 0, personalities = []\<rparr>"

definition mono22b :: "AIPersonality world" where
  "mono22b = \<lparr>heap = [Cell \<lparr>atoms = 1, player = Some RED\<rparr>, Cell \<lparr>atoms = 1, player = None\<rparr>,
                        Arr [0, 1],
                        Cell emptyCell, Cell emptyCell, Arr [3, 4],
                        Arr [2, 5]],
              pos = 0, personalities = []\<rparr>"

definition gridMono :: grid where
  "gridMono = [[\<lparr>atoms = 1, player = Some RED\<rparr>, emptyCell], [emptyCell, emptyCell]]"

section \<open>Properties of the move validator\<close>

text \<open>
  C2 (legality soundness). \<open>isValidMoveForAI\<close> answers false for a coordinate outside
  the grid, in base mode for a coordinate on which any headquarters of the supplied list
  sits, and in classic mode for a cell owned by a player other than the current one.
\<close>

theorem isValidMoveForAI_sound:
  "(outOfBounds grid r c \<longrightarrow>
      isValidMoveForAI isAdjacentTo grid r c p isBaseMode hqs = Inr False)
   \<and> (isHQAt (Some hs) r c \<longrightarrow>
      isValidMoveForAI isAdjacentTo grid r c p True (Some hs) = Inr False)
   \<and> (\<not> outOfBounds grid r c \<and> nth_opt (grid ! nat r) c = Some cell
        \<and> player cell = Some q \<and> q \<noteq> p \<longrightarrow>
      isValidMoveForAI isAdjacentTo grid r c p False hqs = Inr False)"
  by (simp add: isValidMoveForAI_def)

theorem isValidMoveForAI_sound_witness:
  "outOfBounds [[emptyCell, emptyCell], [emptyCell, \<lparr>atoms = 1, player = Some BLUE\<rparr>]] 5 5
   \<and> isHQAt (Some [\<lparr>hq_row = 0, hq_col = 0, hq_player = BLUE, hq_health = 5\<rparr>]) 0 0
   \<and> \<not> outOfBounds [[emptyCell, emptyCell], [emptyCell, \<lparr>atoms = 1, player = Some BLUE\<rparr>]] 1 1
   \<and> nth_opt ([[emptyCell, emptyCell], [emptyCell, \<lparr>atoms = 1, player = Some BLUE\<rparr>]] ! nat 1) 1
        = Some \<lparr>atoms = 1, player = Some BLUE\<rparr>
   \<and> isValidMoveForAI adj8 [[emptyCell, emptyCell], [emptyCell, \<lparr>atoms = 1, player = Some BLUE\<rparr>]]
        5 5 RED False None = Inr False
   \<and> isValidMoveForAI adj8 [[emptyCell, emptyCell], [emptyCell, \<lparr>atoms = 1, player = Some BLUE\<rparr>]]
        0 0 RED True (Some [\<lparr>hq_row = 0, hq_col = 0, hq_player = BLUE, hq_health = 5\<rparr>]) = Inr False
   \<and> isValidMoveForAI adj8 [[emptyCell, emptyCell], [emptyCell, \<lparr>atoms = 1, player = Some BLUE\<rparr>]]
        1 1 RED False None = Inr False"
  using isValidMoveForAI_sound
    [of "[[emptyCell, emptyCell], [emptyCell, \<lparr>atoms = 1, player = Some BLUE\<rparr>]]" 5 5 adj8 RED False None]
    isValidMoveForAI_sound
    [of "[[emptyCell, emptyCell], [emptyCell, \<lparr>atoms = 1, player = Some BLUE\<rparr>]]" 0 0 adj8 RED False None
        "[\<lparr>hq_row = 0, hq_col = 0, hq_player = BLUE, hq_health = 5\<rparr>]"]
    isValidMoveForAI_sound
    [of "[[emptyCell, emptyCell], [emptyCell, \<lparr>atoms = 1, player = Some BLUE\<rparr>]]" 1 1 adj8 RED False None
        "[]" "\<lparr>atoms = 1, player = Some BLUE\<rparr>" BLUE]
  by (simp add: outOfBounds_def isHQAt_def nth_opt_def)

text \<open>
  C3 (first-move restriction). In base mode, when the player's headquarters is in the
  supplied list and no cell owned by the player holds an atom, \<open>isValidMoveForAI\<close>
  answers true only on the row or the column of that headquarters.
\<close>

theorem first_move_restriction:
  assumes "find (\<lambda>hq. hq_player hq = p) hs = Some playerHQ"
    and "\<forall>cells \<in> set grid. \<forall>cell \<in> set cells. \<not> (player cell = Some p \<and> atoms cell > 0)"
    and "isValidMoveForAI isAdjacentTo grid r c p True (Some hs) = Inr True"
  shows "r = hq_row playerHQ \<or> c = hq_col playerHQ"
proof -
  have nodots: "\<not> hasPlayerDots grid p"
    using assms(2) by (auto simp: hasPlayerDots_def list_ex_iff)
  show ?thesis
    using assms(1,3) nodots
    by (auto simp: isValidMoveForAI_def split: if_splits option.splits)
qed

theorem first_move_restriction_witness:
  "find (\<lambda>hq. hq_player hq = RED) [\<lparr>hq_row = 0, hq_col = 0, hq_player = RED, hq_health = 5\<rparr>]
     = Some \<lparr>hq_row = 0, hq_col = 0, hq_player = RED, hq_health = 5\<rparr>
   \<and> \<not> hasPlayerDots [[emptyCell, emptyCell], [emptyCell, emptyCell]] RED
   \<and> isValidMoveForAI adj8 [[emptyCell, emptyCell], [emptyCell, emptyCell]] 0 1 RED True
        (Some [\<lparr>hq_row = 0, hq_col = 0, hq_player = RED, hq_health = 5\<rparr>]) = Inr True
   \<and> isValidMoveForAI adj8 [[emptyCell, emptyCell], [emptyCell, emptyCell]] 1 1 RED True
        (Some [\<lparr>hq_row = 0, hq_col = 0, hq_player = RED, hq_health = 5\<rparr>]) = Inr False
   \<and> ((0::int) = hq_row \<lparr>hq_row = 0, hq_col = 0, hq_player = RED, hq_health = 5\<rparr>
        \<or> (1::int) = hq_col \<lparr>hq_row = 0, hq_col = 0, hq_player = RED, hq_health = 5\<rparr>)"
proof -
  have a: "find (\<lambda>hq. hq_player hq = RED) [\<lparr>hq_row = 0, hq_col = 0, hq_player = RED, hq_health = 5\<rparr>]
     = Some \<lparr>hq_row = 0, hq_col = 0, hq_player = RED, hq_health = 5\<rparr>" by simp
  have b: "\<forall>cells \<in> set [[emptyCell, emptyCell], [emptyCell, emptyCell]].
        \<forall>cell \<in> set cells. \<not> (player cell = Some RED \<and> atoms cell > 0)"
    by (simp add: emptyCell_def)
  have c: "isValidMoveForAI adj8 [[emptyCell, emptyCell], [emptyCell, emptyCell]] 0 1 RED True
        (Some [\<lparr>hq_row = 0, hq_col = 0, hq_player = RED, hq_health = 5\<rparr>]) = Inr True"
    by (simp add: isValidMoveForAI_def outOfBounds_def isHQAt_def nth_opt_def hasPlayerDots_def emptyCell_def)
  have d: "isValidMoveForAI adj8 [[emptyCell, emptyCell], [emptyCell, emptyCell]] 1 1 RED True
        (Some [\<lparr>hq_row = 0, hq_col = 0, hq_player = RED, hq_health = 5\<rparr>]) = Inr False"
    by (simp add: isValidMoveForAI_def outOfBounds_def isHQAt_def nth_opt_def hasPlayerDots_def emptyCell_def)
  have e: "\<not> hasPlayerDots [[emptyCell, emptyCell], [emptyCell, emptyCell]] RED"
    by (simp add: hasPlayerDots_def emptyCell_def)
  from first_move_restriction [OF a b c] a c d e show ?thesis by blast
qed

section \<open>Properties of the personality store\<close>

lemma getPersonality_cached:
  "map_of (personalities w) p = Some per \<Longrightarrow> getPersonality rnd p w = (Inr per, w)"
  by (simp add: getPersonality_def)

lemma getPersonality_fresh:
  assumes "map_of (personalities w) p = None"
  shows "\<exists>per. getPersonality rnd p w
           = (Inr per, w\<lparr>pos := pos w + 9, personalities := personalities w @ [(p, per)]\<rparr>)"
  using assms
  by (simp add: getPersonality_def generateAIPersonality_def bnd_def random_def ret_def Let_def)

text \<open>
  C6 (personality stability). A call of \<open>getPersonality\<close> always returns; a second call
  for the same player, with no reset in between, returns the very same trait vector and
  leaves the world as it is. \<open>resetPersonalities\<close> empties the table, and the next call
  then draws nine new random numbers and stores a fresh entry, the only one of the table.
\<close>

theorem personality_stability:
  "(\<exists>per w1. getPersonality rnd p w = (Inr per, w1)
        \<and> getPersonality rnd p w1 = (Inr per, w1)
        \<and> map_of (personalities w1) p = Some per)
   \<and> personalities (resetPersonalities w) = []
   \<and> (\<exists>per' w2. getPersonality rnd p (resetPersonalities w) = (Inr per', w2)
        \<and> personalities w2 = [(p, per')] \<and> pos w2 = pos w + 9)"
proof (intro conjI)
  show "\<exists>per w1. getPersonality rnd p w = (Inr per, w1)
        \<and> getPersonality rnd p w1 = (Inr per, w1)
        \<and> map_of (personalities w1) p = Some per"
  proof (cases "map_of (personalities w) p")
    case (Some per)
    then show ?thesis using getPersonality_cached by blast
  next
    case None
    from getPersonality_fresh [OF None] obtain per where
      g: "getPersonality rnd p w
           = (Inr per, w\<lparr>pos := pos w + 9, personalities := personalities w @ [(p, per)]\<rparr>)"
      by blast
    let ?w1 = "w\<lparr>pos := pos w + 9, personalities := personalities w @ [(p, per)]\<rparr>"
    have m: "map_of (personalities ?w1) p = Some per"
      using None by (simp add: map_add_Some_iff)
    from g m getPersonality_cached [OF m] show ?thesis by blast
  qed
next
  show "personalities (resetPersonalities w) = []"
    by (simp add: resetPersonalities_def)
next
  have n: "map_of (personalities (resetPersonalities w)) p = None"
    by (simp add: resetPersonalities_def)
  from getPersonality_fresh [OF n] obtain per where
    "getPersonality rnd p (resetPersonalities w)
       = (Inr per, (resetPersonalities w)\<lparr>pos := pos (resetPersonalities w) + 9,
            personalities := personalities (resetPersonalities w) @ [(p, per)]\<rparr>)" by blast
  then show "\<exists>per' w2. getPersonality rnd p (resetPersonalities w) = (Inr per', w2)
        \<and> personalities w2 = [(p, per')] \<and> pos w2 = pos w + 9"
    by (simp add: resetPersonalities_def)
qed

section \<open>Properties of the move selector\<close>


lemma collectValid_Inr:
  "collectValid valid ps = Inr ms \<Longrightarrow>
     ms = map (\<lambda>(r, c). \<lparr>row = r, col = c, score = 0\<rparr>) (filter (\<lambda>(r, c). valid r c = Inr True) ps)"
  by (induction ps arbitrary: ms) (auto split: sum.splits if_splits)

lemma collectValid_total:
  "(\<And>r c. (r, c) \<in> set ps \<Longrightarrow> valid r c \<noteq> Inl TypeError) \<Longrightarrow> \<exists>ms. collectValid valid ps = Inr ms"
proof (induction ps)
  case Nil
  then show ?case by simp
next
  case (Cons a ps)
  obtain r c where a: "a = (r, c)" by (cases a)
  from Cons obtain ms where ms: "collectValid valid ps = Inr ms" by auto
  from Cons.prems [of r c] a obtain b where "valid r c = Inr b"
    by (cases "valid r c") (auto, metis error.exhaust)
  with ms a show ?case by simp
qed

lemma getValidMoves_Inr:
  assumes "getValidMoves isAdjacentTo grid p isBaseMode hqs = Inr ms" and "m \<in> set ms"
  shows "isValidMoveForAI isAdjacentTo grid (row m) (col m) p isBaseMode hqs = Inr True"
proof (cases grid)
  case Nil
  with assms show ?thesis by (simp add: getValidMoves_def)
next
  case (Cons row0 rest)
  with assms(1) have "collectValid (\<lambda>r c. isValidMoveForAI isAdjacentTo grid r c p isBaseMode hqs)
            (window 0 (int (length grid) - 1) 0 (int (length row0) - 1)) = Inr ms"
    by (simp add: getValidMoves_def)
  from collectValid_Inr [OF this] assms(2) show ?thesis by auto
qed

lemma valid_in_bounds:
  "isValidMoveForAI isAdjacentTo grid r c p isBaseMode hqs = Inr True \<Longrightarrow> \<not> outOfBounds grid r c"
  by (auto simp: isValidMoveForAI_def split: if_splits)

lemma getValidMoves_empty:
  assumes "\<And>r c. isValidMoveForAI isAdjacentTo grid r c p isBaseMode hqs = Inr False"
  shows "getValidMoves isAdjacentTo grid p isBaseMode hqs = Inr []"
proof (cases grid)
  case Nil
  then show ?thesis by (simp add: getValidMoves_def)
next
  case (Cons row0 rest)
  let ?v = "\<lambda>r c. isValidMoveForAI isAdjacentTo grid r c p isBaseMode hqs"
  let ?ps = "window 0 (int (length grid) - 1) 0 (int (length row0) - 1)"
  have "\<exists>ms. collectValid ?v ?ps = Inr ms"
    by (rule collectValid_total) (simp add: assms)
  then obtain ms where ms: "collectValid ?v ?ps = Inr ms" by blast
  from collectValid_Inr [OF ms] have "ms = []" by (simp add: assms)
  with ms Cons show ?thesis by (simp add: getValidMoves_def)
qed


lemma getPersonality_heap:
  "getPersonality rnd p w = (res, w') \<Longrightarrow> heap w' = heap w \<and> (\<exists>per. res = Inr per)"
  by (cases "map_of (personalities w) p")
     (auto simp: getPersonality_def generateAIPersonality_def bnd_def random_def ret_def Let_def)

text \<open>
  C9 (no-move terminality). When \<open>isValidMoveForAI\<close> is false at every coordinate of
  the grid behind the reference, \<open>getBestMove\<close> returns \<open>null\<close> without raising, and so
  does \<open>getAIMove\<close>.
\<close>

theorem no_move_terminality:
  assumes "readGrid (heap w) g = Some grid"
    and "\<forall>r c. isValidMoveForAI isAdjacentTo grid r c p isBaseMode hqs = Inr False"
  shows "fst (getBestMove rnd cm isAdjacentTo g p isBaseMode hqs powerUps w) = Inr None
       \<and> fst (getAIMove rnd cm isAdjacentTo g p isBaseMode hqs powerUps w) = None"
proof -
  obtain res w1 where gp: "getPersonality rnd p w = (res, w1)" by (cases "getPersonality rnd p w")
  from getPersonality_heap [OF gp] obtain per where h: "heap w1 = heap w" and r: "res = Inr per"
    by blast
  have v: "getValidMoves isAdjacentTo grid p isBaseMode hqs = Inr []"
    by (rule getValidMoves_empty) (simp add: assms(2))
  have "fst (getBestMove rnd cm isAdjacentTo g p isBaseMode hqs powerUps w) = Inr None"
    using gp r h v assms(1)
    by (simp add: getBestMove_def bnd_def readGridM_def defined_def ret_def liftE_def Let_def)
  then show ?thesis
    by (cases "getBestMove rnd cm isAdjacentTo g p isBaseMode hqs powerUps w")
       (auto simp: getAIMove_def)
qed

theorem no_move_terminality_witness:
  "readGrid (heap fullBoard) 2 = Some [[\<lparr>atoms = 1, player = Some BLUE\<rparr>]]
   \<and> isValidMoveForAI adj8 [[\<lparr>atoms = 1, player = Some BLUE\<rparr>]] 0 0 RED False None = Inr False
   \<and> fst (getBestMove (\<lambda>_. 0) neighbourCount adj8 2 RED False None None fullBoard) = Inr None
   \<and> fst (getAIMove (\<lambda>_. 0) neighbourCount adj8 2 RED False None None fullBoard) = None"
proof -
  have a: "readGrid (heap fullBoard) 2 = Some [[\<lparr>atoms = 1, player = Some BLUE\<rparr>]]"
    by (simp add: fullBoard_def readGrid_def readRow_def getArr_def getCell_def)
  have b: "\<forall>r c. isValidMoveForAI adj8 [[\<lparr>atoms = 1, player = Some BLUE\<rparr>]] r c RED False None
             = Inr False"
    by (auto simp: isValidMoveForAI_def outOfBounds_def nth_opt_def)
  from no_move_terminality [OF a b, of "\<lambda>_. 0" neighbourCount None] a b
  show ?thesis by blast
qed

lemma bnd_InrE:
  assumes "bnd m f w = (Inr y, w')"
  obtains x w1 where "m w = (Inr x, w1)" and "f x w1 = (Inr y, w')"
  using assms by (auto simp: bnd_def split: prod.splits sum.splits)

lemma defined_InrE:
  assumes "defined v w = (Inr y, w')"
  obtains "v = Some y" and "w' = w"
  using assms by (cases v) (auto simp: defined_def throw_def ret_def)

lemma liftE_InrE:
  assumes "liftE v w = (Inr y, w')"
  obtains "v = Inr y" and "w' = w"
  using assms by (cases v) (auto simp: liftE_def throw_def ret_def)

lemma readGridM_InrE:
  assumes "readGridM g w = (Inr grid, w')"
  obtains "readGrid (heap w) g = Some grid" and "w' = w"
  using assms unfolding readGridM_def by (erule defined_InrE)

lemma ret_InrE:
  assumes "ret x w = (Inr y, w')"
  obtains "y = x" and "w' = w"
  using assms by (auto simp: ret_def)

lemma scoreMoves_coords:
  "scoreMoves rnd cm g p gs ms w = (Inr ms', w')
     \<Longrightarrow> map (\<lambda>m. (row m, col m)) ms' = map (\<lambda>m. (row m, col m)) ms"
proof (induction ms arbitrary: w ms')
  case Nil
  then show ?case by (simp add: ret_def)
next
  case (Cons m ms)
  from Cons.prems obtain s w1 rest where
    r: "scoreMoves rnd cm g p gs ms w1 = (Inr rest, w')" and e: "ms' = m\<lparr>score := s\<rparr> # rest"
    by (auto elim!: bnd_InrE ret_InrE)
  from Cons.IH [OF r] e show ?case by simp
qed

lemma set_sortByScore: "set (sortByScore ms) = set ms"
  by (simp add: sortByScore_def)

lemma defensiveBonus_coords [simp]:
  "row (defensiveBonus hq m) = row m" "col (defensiveBonus hq m) = col m"
  by (simp_all add: defensiveBonus_def Let_def)

lemma defensiveResort_coords:
  assumes "defensiveResort grid p isBaseMode hqs ms = Inr ms'"
  shows "(\<lambda>m. (row m, col m)) ` set ms' = (\<lambda>m. (row m, col m)) ` set ms"
proof -
  from assms have "ms' = ms \<or> (\<exists>hq. ms' = sortByScore (map (defensiveBonus hq) ms))"
    unfolding defensiveResort_def
    by (auto split: option.splits sum.splits bool.splits if_splits)
  then show ?thesis
    by (auto simp: set_sortByScore image_image)
qed

lemma nth_opt_mem: "nth_opt xs i = Some x \<Longrightarrow> x \<in> set xs"
  by (auto simp: nth_opt_def split: if_splits)

lemma find_mem: "find P xs = Some x \<Longrightarrow> x \<in> set xs \<and> P x"
  by (auto simp: find_Some_iff)

text \<open>
  C10 (the selected move is legal). A move returned by \<open>getAIMove\<close> has coordinates
  inside the grid behind the reference and passes \<open>isValidMoveForAI\<close> there: the power-up
  override, the defensive re-sort and the final sampling only pick among the enumerated
  legal moves.
\<close>

theorem selected_move_is_legal:
  assumes "fst (getAIMove rnd cm isAdjacentTo g p isBaseMode hqs powerUps w) = Some m"
  shows "\<exists>grid. readGrid (heap w) g = Some grid
           \<and> \<not> outOfBounds grid (row m) (col m)
           \<and> isValidMoveForAI isAdjacentTo grid (row m) (col m) p isBaseMode hqs = Inr True"
proof -
  obtain res w' where gb: "getBestMove rnd cm isAdjacentTo g p isBaseMode hqs powerUps w = (res, w')"
    by (cases "getBestMove rnd cm isAdjacentTo g p isBaseMode hqs powerUps w")
  with assms have res: "res = Inr (Some m)"
    by (cases res) (auto simp: getAIMove_def)
  let ?gs = "\<lparr>gs_grid = g, gs_currentPlayer = p, gs_isBaseMode = isBaseMode,
              gs_hqs = hqs, gs_powerUps = powerUps\<rparr>"
  from gb res have gb': "getBestMove rnd cm isAdjacentTo g p isBaseMode hqs powerUps w
      = (Inr (Some m), w')" by simp
  from gb' [unfolded getBestMove_def Let_def] obtain per w1 grid vm where
    gp: "getPersonality rnd p w = (Inr per, w1)" and
    rg: "readGrid (heap w1) g = Some grid" and
    gv: "getValidMoves isAdjacentTo grid p isBaseMode hqs = Inr vm" and
    rest: "(if vm = [] then ret None
       else (case (if isBaseMode then
                (case powerUps of None \<Rightarrow> None | Some pus \<Rightarrow> find (onPowerUp pus) vm)
              else None) of
          Some move \<Rightarrow> ret (Some (move\<lparr>score := 10000\<rparr>))
        | None \<Rightarrow>
            bnd (scoreMoves rnd cm g p ?gs vm)
              (\<lambda>scored.
            bnd (readGridM g) (\<lambda>grid'.
            bnd (liftE (defensiveResort grid' p isBaseMode hqs (sortByScore scored)))
              (\<lambda>ranked.
            bnd (random rnd) (\<lambda>u.
            bnd (defined (nth_opt ranked \<lfloor>u * of_int (topMoveCount ranked)\<rfloor>)) (\<lambda>bestMove.
            ret (Some bestMove)))))))) w1 = (Inr (Some m), w')"
    by (elim bnd_InrE readGridM_InrE liftE_InrE) auto
  from getPersonality_heap [OF gp] rg have rg0: "readGrid (heap w) g = Some grid" by simp
  have "\<exists>m0 \<in> set vm. row m0 = row m \<and> col m0 = col m"
  proof (cases "(if isBaseMode then
                (case powerUps of None \<Rightarrow> None | Some pus \<Rightarrow> find (onPowerUp pus) vm)
              else None)")
    case (Some move)
    then have "move \<in> set vm"
      by (auto split: if_splits option.splits dest: find_mem)
    moreover from rest Some have "m = move\<lparr>score := 10000\<rparr>"
      by (auto simp: ret_def split: if_splits)
    ultimately show ?thesis by auto
  next
    case None
    with rest obtain scored w2 grid' ranked w3 u w4 i where
      sm: "scoreMoves rnd cm g p ?gs vm w1 = (Inr scored, w2)" and
      dr: "defensiveResort grid' p isBaseMode hqs (sortByScore scored) = Inr ranked" and
      nth: "nth_opt ranked i = Some m"
      by (auto simp: ret_def split: if_splits
               elim!: bnd_InrE readGridM_InrE liftE_InrE defined_InrE)
    from nth_opt_mem [OF nth] have "(row m, col m) \<in> (\<lambda>m. (row m, col m)) ` set ranked" by force
    with defensiveResort_coords [OF dr] set_sortByScore
    have "(row m, col m) \<in> (\<lambda>m. (row m, col m)) ` set scored" by simp
    then have "(row m, col m) \<in> set (map (\<lambda>m. (row m, col m)) scored)" by simp
    with scoreMoves_coords [OF sm] have "(row m, col m) \<in> set (map (\<lambda>m. (row m, col m)) vm)"
      by simp
    then show ?thesis by auto
  qed
  then obtain m0 where m0: "m0 \<in> set vm" "row m0 = row m" "col m0 = col m" by blast
  from getValidMoves_Inr [OF gv m0(1)] m0
  have v: "isValidMoveForAI isAdjacentTo grid (row m) (col m) p isBaseMode hqs = Inr True" by simp
  from rg0 v valid_in_bounds [OF v] show ?thesis by blast
qed



theorem selected_move_is_legal_witness:
  "fst (getAIMove (\<lambda>_. 1/2) neighbourCount adj8 6 RED False None None board22)
     = Some \<lparr>row = 1, col = 0, score = 37071 / 50\<rparr>
   \<and> (\<exists>grid. readGrid (heap board22) 6 = Some grid
         \<and> \<not> outOfBounds grid 1 0
         \<and> isValidMoveForAI adj8 grid 1 0 RED False None = Inr True)"
proof -
  have a: "fst (getAIMove (\<lambda>_. 1/2) neighbourCount adj8 6 RED False None None board22)
     = Some \<lparr>row = 1, col = 0, score = 37071 / 50\<rparr>"
    by code_simp
  from selected_move_is_legal [OF a] a show ?thesis by simp
qed


section \<open>Properties of the object store\<close>

lemma getArr_append: "a < length h \<Longrightarrow> getArr (h @ ext) a = getArr h a"
  by (simp add: getArr_def nth_append)

lemma getCell_append: "a < length h \<Longrightarrow> getCell (h @ ext) a = getCell h a"
  by (simp add: getCell_def nth_append)

lemma getArr_Some_less: "getArr h a = Some xs \<Longrightarrow> a < length h"
  by (auto simp: getArr_def split: if_splits)

lemma getCell_Some_less: "getCell h a = Some x \<Longrightarrow> a < length h"
  by (auto simp: getCell_def split: if_splits)

lemma allocRow_spec:
  "allocRow h cells = (a, h1) \<Longrightarrow>
     h1 = h @ map Cell cells @ [Arr [length h..<length h + length cells]]
     \<and> a = length h + length cells
     \<and> getArr h1 a = Some [length h..<length h + length cells]
     \<and> list_all2 (\<lambda>b x. getCell h1 b = Some x) [length h..<length h + length cells] cells"
  by (auto simp: allocRow_def getArr_def getCell_def nth_append list_all2_conv_all_nth)

lemma copyOf_append:
  assumes "copyOf h as css grid"
  shows "copyOf (h @ ext) as css grid"
proof -
  have 1: "\<And>a cs. getArr h a = Some cs \<Longrightarrow> getArr (h @ ext) a = Some cs"
    by (frule getArr_Some_less) (simp add: getArr_append)
  have 2: "\<And>b x. getCell h b = Some x \<Longrightarrow> getCell (h @ ext) b = Some x"
    by (frule getCell_Some_less) (simp add: getCell_append)
  from assms show ?thesis
    unfolding copyOf_def
    by (auto elim!: list_all2_mono intro: 1 2)
qed

lemma allocRows_spec:
  "allocRows h grid = (as, h') \<Longrightarrow>
     \<exists>ext css. h' = h @ ext \<and> copyOf h' as css grid
        \<and> distinct (concat css) \<and> set (concat css) \<subseteq> {length h..<length h'}"
proof (induction grid arbitrary: h as h')
  case Nil
  then show ?case by (simp add: copyOf_def)
next
  case (Cons cells rest)
  obtain a h1 where ar: "allocRow h cells = (a, h1)" by (cases "allocRow h cells")
  obtain as' h2 where ars: "allocRows h1 rest = (as', h2)" by (cases "allocRows h1 rest")
  from Cons.prems ar ars have eq: "as = a # as'" "h' = h2" by auto
  let ?cs0 = "[length h..<length h + length cells]"
  from allocRow_spec [OF ar] have h1: "h1 = h @ map Cell cells @ [Arr ?cs0]"
    and ga: "getArr h1 a = Some ?cs0"
    and gc: "list_all2 (\<lambda>b x. getCell h1 b = Some x) ?cs0 cells" by auto
  from Cons.IH [OF ars] obtain ext' css' where
    h2: "h2 = h1 @ ext'" and co: "copyOf h2 as' css' rest"
    and di: "distinct (concat css')" and su: "set (concat css') \<subseteq> {length h1..<length h2}"
    by blast
  have c0: "copyOf h1 [a] [?cs0] [cells]" using ga gc by (simp add: copyOf_def)
  from copyOf_append [OF c0, of ext'] h2 have c0': "copyOf h2 [a] [?cs0] [cells]" by simp
  from c0' co have c: "copyOf h2 (a # as') (?cs0 # css') (cells # rest)"
    by (simp add: copyOf_def)
  have len: "length h1 = length h + length cells + 1" using h1 by simp
  have d: "distinct (concat (?cs0 # css'))"
    using di su len by auto
  have s: "set (concat (?cs0 # css')) \<subseteq> {length h..<length h2}"
    using su len h2 by auto
  from h1 h2 have "h2 = h @ (map Cell cells @ [Arr ?cs0] @ ext')" by simp
  with c d s eq show ?case by blast
qed

lemma copyGrid_spec:
  assumes "copyGrid h grid = (sg, h1)"
  shows "\<exists>ext as css. h1 = h @ ext \<and> length h \<le> sg \<and> getArr h1 sg = Some as
           \<and> copyOf h1 as css grid \<and> distinct (concat css)
           \<and> set (concat css) \<subseteq> {length h..<length h1}"
proof -
  obtain as h' where ar: "allocRows h grid = (as, h')" by (cases "allocRows h grid")
  from allocRows_spec [OF ar] obtain ext css where
    h': "h' = h @ ext" and co: "copyOf h' as css grid" and di: "distinct (concat css)"
    and su: "set (concat css) \<subseteq> {length h..<length h'}" by blast
  from assms ar have sg: "sg = length h'" and h1: "h1 = h' @ [Arr as]"
    by (auto simp: copyGrid_def)
  have "getArr h1 sg = Some as" using sg h1 by (simp add: getArr_def)
  moreover from copyOf_append [OF co] h1 have "copyOf h1 as css grid" by simp
  moreover have "h1 = h @ (ext @ [Arr as])" using h' h1 by simp
  moreover have "length h \<le> sg" using sg h' by simp
  moreover have "set (concat css) \<subseteq> {length h..<length h1}" using su h1 by auto
  ultimately show ?thesis using di by blast
qed

lemma distinct_concat_nth:
  assumes "distinct (concat css)"
    and "i < length css" "j < length (css ! i)" "i' < length css" "j' < length (css ! i')"
    and "css ! i ! j = css ! i' ! j'"
  shows "i = i' \<and> j = j'"
  using assms
proof (induction css arbitrary: i i')
  case Nil
  then show ?case by simp
next
  case (Cons cs css)
  have mem: "\<And>k l. k < length css \<Longrightarrow> l < length (css ! k) \<Longrightarrow> css ! k ! l \<in> set (concat css)"
    using nth_mem by fastforce
  from Cons.prems(1) have d0: "distinct cs" and d1: "distinct (concat css)"
    and dj: "set cs \<inter> set (concat css) = {}" by auto
  show ?case
  proof (cases i)
    case 0
    show ?thesis
    proof (cases i')
      case 0
      with \<open>i = 0\<close> Cons.prems d0 show ?thesis by (simp add: nth_eq_iff_index_eq)
    next
      case (Suc k')
      with \<open>i = 0\<close> Cons.prems have f: "j < length cs" "cs ! j = css ! k' ! j'"
        "k' < length css" "j' < length (css ! k')" by simp_all
      from f(1) have "cs ! j \<in> set cs" by simp
      with f(2) mem [OF f(3,4)] dj show ?thesis by auto
    qed
  next
    case (Suc k)
    show ?thesis
    proof (cases i')
      case 0
      with \<open>i = Suc k\<close> Cons.prems have f: "j' < length cs" "css ! k ! j = cs ! j'"
        "k < length css" "j < length (css ! k)" by simp_all
      from f(1) have "cs ! j' \<in> set cs" by simp
      with f(2) mem [OF f(3,4)] dj show ?thesis by auto
    next
      case (Suc k')
      with \<open>i = Suc k\<close> Cons.prems Cons.IH [OF d1, of k k'] show ?thesis by auto
    qed
  qed
qed

lemma cellAt_Some_iff:
  "cellAt grid r c = Some x \<longleftrightarrow>
     0 \<le> r \<and> nat r < length grid \<and> 0 \<le> c \<and> nat c < length (grid ! nat r)
     \<and> x = grid ! nat r ! nat c"
  by (auto simp: cellAt_def nth_opt_def split: if_splits)

lemma copyOf_nth:
  assumes "copyOf h as css grid" and "i < length grid"
  shows "length as = length grid" "length css = length grid"
    "getArr h (as ! i) = Some (css ! i)" "length (css ! i) = length (grid ! i)"
    "j < length (grid ! i) \<Longrightarrow> getCell h (css ! i ! j) = Some (grid ! i ! j)"
  using assms by (auto simp: copyOf_def list_all2_conv_all_nth)

lemma copy_cellAddr:
  assumes "getArr h sg = Some as" and "copyOf h as css grid" and "cellAt grid r c = Some x"
  shows "cellAddr h sg r c = Some (css ! nat r ! nat c)"
    and "getCell h (css ! nat r ! nat c) = Some x"
proof -
  from assms(3) have b: "0 \<le> r" "nat r < length grid" "0 \<le> c" "nat c < length (grid ! nat r)"
    and x: "x = grid ! nat r ! nat c" by (auto simp: cellAt_Some_iff)
  note n = copyOf_nth [OF assms(2) b(2)]
  show "cellAddr h sg r c = Some (css ! nat r ! nat c)"
    using assms(1) b n(1,3,4) by (simp add: cellAddr_def nth_opt_def nat_less_iff)
  show "getCell h (css ! nat r ! nat c) = Some x"
    using n(5) [OF b(4)] x by simp
qed

lemma getArr_update_Cell:
  "getCell h a = Some old \<Longrightarrow> getArr (h[a := Cell new]) b = getArr h b"
  by (auto simp: getArr_def getCell_def nth_list_update split: if_splits obj.splits)

lemma getCell_update_Cell:
  "a < length h \<Longrightarrow> getCell (h[a := Cell new]) b = (if b = a then Some new else getCell h b)"
  by (auto simp: getCell_def nth_list_update)

lemma sim_lookup:
  assumes ga: "getArr h sg = Some as" and co: "copyOf h as css grid"
    and di: "distinct (concat css)"
    and old: "cellAt grid r0 c0 = Some old"
    and x: "cellAt grid r c = Some x"
  shows "heapCellAt (h[css ! nat r0 ! nat c0 := Cell new]) sg r c
           = Some (if r = r0 \<and> c = c0 then new else x)"
proof -
  let ?a0 = "css ! nat r0 ! nat c0"
  let ?h2 = "h[?a0 := Cell new]"
  note a0 = copy_cellAddr [OF ga co old]
  note a = copy_cellAddr [OF ga co x]
  from a0(2) have lt: "?a0 < length h" by (rule getCell_Some_less)
  have arr: "\<And>b. getArr ?h2 b = getArr h b" by (rule getArr_update_Cell [OF a0(2)])
  have "cellAddr ?h2 sg r c = cellAddr h sg r c" by (simp add: cellAddr_def arr)
  with a(1) have ca: "cellAddr ?h2 sg r c = Some (css ! nat r ! nat c)" by simp
  from old have b0: "0 \<le> r0" "nat r0 < length grid" "0 \<le> c0" "nat c0 < length (grid ! nat r0)"
    by (auto simp: cellAt_Some_iff)
  from x have b: "0 \<le> r" "nat r < length grid" "0 \<le> c" "nat c < length (grid ! nat r)"
    by (auto simp: cellAt_Some_iff)
  note n0 = copyOf_nth [OF co b0(2)]
  note n = copyOf_nth [OF co b(2)]
  have inj: "css ! nat r ! nat c = ?a0 \<longleftrightarrow> r = r0 \<and> c = c0"
  proof
    assume e: "css ! nat r ! nat c = ?a0"
    from distinct_concat_nth [OF di _ _ _ _ e] b b0 n(2,4) n0(2,4)
    have "nat r = nat r0 \<and> nat c = nat c0" by simp
    with b(1,3) b0(1,3) show "r = r0 \<and> c = c0" by (simp add: eq_nat_nat_iff)
  qed simp
  show ?thesis
    using ca a(2) inj lt by (simp add: heapCellAt_def getCell_update_Cell)
qed

section \<open>The simulator as a function of the grid\<close>

lemma neighbors_in_bounds:
  "(nr, nc) \<in> set (getNeighborsForAI r c rows cols) \<Longrightarrow> 0 \<le> nr \<and> nr < rows \<and> 0 \<le> nc \<and> nc < cols"
  by (auto simp: getNeighborsForAI_def split: if_splits)

lemma rectangular_cellAt:
  assumes "rectangular grid" and "0 \<le> r" "r < int (length grid)" "0 \<le> c" "c < int (length (hd grid))"
  shows "cellAt grid r c = Some (grid ! nat r ! nat c)"
proof -
  from assms(1,2,3) have "length (grid ! nat r) = length (hd grid)"
    by (simp add: rectangular_def list_all_length nat_less_iff)
  with assms show ?thesis by (simp add: cellAt_def nth_opt_def nat_less_iff)
qed

lemma bnd_Inr: "m w = (Inr x, w') \<Longrightarrow> bnd m f w = f x w'"
  by (simp add: bnd_def)

lemma ret_apply: "ret x w = (Inr x, w)"
  by (simp add: ret_def)

lemma bnd_Inl: "m w = (Inl e, w') \<Longrightarrow> bnd m f w = (Inl e, w')"
  by (simp add: bnd_def)

lemma heapCellAtM_Some:
  "heapCellAt (heap w) sg r c = Some x \<Longrightarrow> heapCellAtM sg r c w = (Inr x, w)"
  by (simp add: heapCellAtM_def defined_def ret_def)

lemma second_level:
  fixes acc :: int
  assumes "\<And>n. n \<in> set ns \<Longrightarrow> \<exists>x. heapCellAt (heap w) sg (fst n) (snd n) = Some x \<and> atoms x = look n"
  shows "forEach (\<lambda>(nnr, nnc) chainPotential.
            bnd (heapCellAtM sg nnr nnc) (\<lambda>secondCell.
            ret (if atoms secondCell + 1 \<ge> cm nnr nnc rows cols
                 then chainPotential + 2 else chainPotential))) ns acc w
         = (Inr (acc + sum_list (map (\<lambda>n. if look n + 1 \<ge> cm (fst n) (snd n) rows cols
                                         then 2 else 0) ns)), w)"
    (is "forEach ?F ns acc w = _")
  using assms
proof (induction ns arbitrary: acc)
  case Nil
  then show ?case by (simp add: ret_def)
next
  case (Cons n ns)
  obtain nnr nnc where n: "n = (nnr, nnc)" by (cases n)
  from Cons.prems [of n] n obtain x where
    x: "heapCellAt (heap w) sg nnr nnc = Some x" "atoms x = look n" by auto
  have step: "?F n acc w
      = (Inr (if look n + 1 \<ge> cm (fst n) (snd n) rows cols then acc + 2 else acc), w)"
    by (simp add: n bnd_Inr [where m = "heapCellAtM sg _ _" and w = w, OF heapCellAtM_Some [OF x(1)]] ret_apply x(2) [unfolded n])
  have IH: "\<And>a. forEach ?F ns a w
         = (Inr (a + sum_list (map (\<lambda>n. if look n + 1 \<ge> cm (fst n) (snd n) rows cols
                                         then 2 else 0) ns)), w)"
    by (rule Cons.IH) (simp add: Cons.prems)
  have "forEach ?F (n # ns) acc w
      = forEach ?F ns (if look n + 1 \<ge> cm (fst n) (snd n) rows cols then acc + 2 else acc) w"
    by (simp only: forEach.simps bnd_Inr [where m = "?F n acc" and w = w, OF step])
  then show ?case by (simp add: IH)
qed

lemma first_level:
  fixes acc :: int
  assumes "\<And>n. 0 \<le> fst n \<and> fst n < rows \<and> 0 \<le> snd n \<and> snd n < cols
             \<Longrightarrow> \<exists>x. heapCellAt (heap w) sg (fst n) (snd n) = Some x \<and> atoms x = look n"
    and "\<And>n. n \<in> set ns \<Longrightarrow> 0 \<le> fst n \<and> fst n < rows \<and> 0 \<le> snd n \<and> snd n < cols"
  shows "forEach (\<lambda>(nr, nc) chainPotential.
            bnd (heapCellAtM sg nr nc) (\<lambda>neighborCell.
            if atoms neighborCell + 1 \<ge> cm nr nc rows cols
            then forEach (\<lambda>(nnr, nnc) chainPotential.
                   bnd (heapCellAtM sg nnr nnc) (\<lambda>secondCell.
                   ret (if atoms secondCell + 1 \<ge> cm nnr nnc rows cols
                        then chainPotential + 2 else chainPotential)))
                   (getNeighborsForAI nr nc rows cols) (chainPotential + 5)
            else ret chainPotential)) ns acc w
         = (Inr (acc + sum_list (map (\<lambda>n.
               if look n + 1 \<ge> cm (fst n) (snd n) rows cols
               then 5 + sum_list (map (\<lambda>n2. if look n2 + 1 \<ge> cm (fst n2) (snd n2) rows cols
                                              then 2 else 0)
                           (getNeighborsForAI (fst n) (snd n) rows cols))
               else 0) ns)), w)"
    (is "forEach ?F ns acc w = (Inr (acc + sum_list (map ?v ns)), w)")
  using assms(2)
proof (induction ns arbitrary: acc)
  case Nil
  then show ?case by (simp add: ret_def)
next
  case (Cons n ns)
  obtain nr nc where n: "n = (nr, nc)" by (cases n)
  from Cons.prems [of n] have nb: "0 \<le> fst n \<and> fst n < rows \<and> 0 \<le> snd n \<and> snd n < cols" by simp
  from assms(1) [OF nb] n obtain x where
    x: "heapCellAt (heap w) sg nr nc = Some x" "atoms x = look (nr, nc)" by auto
  have inner: "\<And>a::int. forEach (\<lambda>(nnr, nnc) chainPotential.
                   bnd (heapCellAtM sg nnr nnc) (\<lambda>secondCell.
                   ret (if atoms secondCell + 1 \<ge> cm nnr nnc rows cols
                        then chainPotential + 2 else chainPotential)))
                   (getNeighborsForAI nr nc rows cols) a w
        = (Inr (a + sum_list (map (\<lambda>n2. if look n2 + 1 \<ge> cm (fst n2) (snd n2) rows cols
                                              then 2 else 0)
                           (getNeighborsForAI nr nc rows cols))), w)"
  proof (rule second_level)
    fix n2 assume "n2 \<in> set (getNeighborsForAI nr nc rows cols)"
    then have "0 \<le> fst n2 \<and> fst n2 < rows \<and> 0 \<le> snd n2 \<and> snd n2 < cols"
      using neighbors_in_bounds [of "fst n2" "snd n2"] by simp
    then show "\<exists>x. heapCellAt (heap w) sg (fst n2) (snd n2) = Some x \<and> atoms x = look n2"
      by (rule assms(1))
  qed
  have step: "?F n acc w = (Inr (acc + ?v n), w)"
    by (simp add: n bnd_Inr [where m = "heapCellAtM sg _ _" and w = w, OF heapCellAtM_Some [OF x(1)]] ret_apply x(2) inner)
  have IH: "\<And>a. forEach ?F ns a w = (Inr (a + sum_list (map ?v ns)), w)"
    by (rule Cons.IH) (simp add: Cons.prems)
  have "forEach ?F (n # ns) acc w = forEach ?F ns (acc + ?v n) w"
    by (simp only: forEach.simps bnd_Inr [where m = "?F n acc" and w = w, OF step])
  then show ?case by (simp add: IH)
qed

lemma bnd_apply:
  "bnd m f w = (case m w of (Inl e, s') \<Rightarrow> (Inl e, s') | (Inr x, s') \<Rightarrow> f x s')"
  by (simp add: bnd_def)

lemma chain_value:
  assumes rg: "readGrid (heap w) g = Some grid" and rect: "rectangular grid"
    and old: "cellAt grid r c = Some old"
  shows "fst (calculateChainReactionPotential cm g r c p w) = Inr (chainValue cm grid r c)"
proof -
  let ?rows = "int (length grid)" and ?cols = "int (length (hd grid))"
  let ?new = "old\<lparr>atoms := atoms old + 1, player := Some p\<rparr>"
  from old have ne: "grid \<noteq> []" by (auto simp: cellAt_Some_iff)
  then have row0: "nth_opt grid 0 = Some (hd grid)"
    by (cases grid) (simp_all add: nth_opt_def)
  obtain sg h1 where cg: "copyGrid (heap w) grid = (sg, h1)" by (cases "copyGrid (heap w) grid")
  from copyGrid_spec [OF cg] obtain as css where
    ga: "getArr h1 sg = Some as" and co: "copyOf h1 as css grid" and di: "distinct (concat css)"
    by blast
  let ?a0 = "css ! nat r ! nat c"
  let ?w1 = "w\<lparr>heap := h1\<rparr>"
  let ?w2 = "w\<lparr>heap := h1[?a0 := Cell ?new]\<rparr>"
  note a0 = copy_cellAddr [OF ga co old]
  have s1: "readGridM g w = (Inr grid, w)"
    using rg by (simp add: readGridM_def defined_def ret_def)
  have s2: "defined (nth_opt grid 0) w = (Inr (hd grid), w)"
    using row0 by (simp add: defined_def ret_def)
  have s3: "copyGridM grid w = (Inr sg, ?w1)"
    using cg by (simp add: copyGridM_def)
  have s4: "cellAddrM sg r c ?w1 = (Inr ?a0, ?w1)"
    using a0(1) by (simp add: cellAddrM_def defined_def ret_def)
  have s5: "getCellM ?a0 ?w1 = (Inr old, ?w1)"
    using a0(2) by (simp add: getCellM_def defined_def ret_def)
  have s6: "setCellM ?a0 ?new ?w1 = (Inr (), ?w2)"
    by (simp add: setCellM_def)
  have look: "\<exists>x. heapCellAt (heap ?w2) sg (fst n) (snd n) = Some x
                 \<and> atoms x = atomsAfter grid r c (fst n) (snd n)"
    if "0 \<le> fst n \<and> fst n < ?rows \<and> 0 \<le> snd n \<and> snd n < ?cols" for n
  proof -
    from that rect have x: "cellAt grid (fst n) (snd n) = Some (grid ! nat (fst n) ! nat (snd n))"
      by (simp add: rectangular_cellAt)
    from sim_lookup [OF ga co di old x, of ?new] x old
    show ?thesis by (auto simp: atomsAfter_def)
  qed
  have nb: "0 \<le> fst n \<and> fst n < ?rows \<and> 0 \<le> snd n \<and> snd n < ?cols"
    if "n \<in> set (getNeighborsForAI r c ?rows ?cols)" for n
    using that neighbors_in_bounds [of "fst n" "snd n" r c ?rows ?cols] by simp
  note s7 = first_level [where w = ?w2 and sg = sg and rows = ?rows and cols = ?cols
      and look = "\<lambda>n. atomsAfter grid r c (fst n) (snd n)"
      and ns = "getNeighborsForAI r c ?rows ?cols" and cm = cm and acc = 0, OF look nb]
  have gate: "atomsAfter grid r c r c = atoms old + 1"
    using old by (simp add: atomsAfter_def)
  show ?thesis
  proof (cases "cm r c ?rows ?cols \<le> atoms old + 1")
    case True
    then show ?thesis
      unfolding calculateChainReactionPotential_def Let_def
      by (simp add: bnd_apply s1 s2 s3 s4 s5 s6 s7 chainValue_def gate wouldExplode_def Let_def
               cong: if_cong)
  next
    case False
    then show ?thesis
      unfolding calculateChainReactionPotential_def Let_def
      by (simp add: bnd_apply s1 s2 s3 s4 s5 s6 ret_apply chainValue_def gate Let_def)
  qed
qed

lemma chain_undefined:
  assumes rg: "readGrid (heap w) g = Some grid" and old: "cellAt grid r c = None"
  shows "fst (calculateChainReactionPotential cm g r c p w) = Inl TypeError"
proof -
  have s1: "readGridM g w = (Inr grid, w)"
    using rg by (simp add: readGridM_def defined_def ret_def)
  show ?thesis
  proof (cases grid)
    case Nil
    then show ?thesis
      unfolding calculateChainReactionPotential_def Let_def
      by (simp add: bnd_apply s1 defined_def throw_def nth_opt_def)
  next
    case (Cons row0 rest)
    then have s2: "defined (nth_opt grid 0) w = (Inr row0, w)"
      by (simp add: defined_def ret_def nth_opt_def)
    obtain sg h1 where cg: "copyGrid (heap w) grid = (sg, h1)" by (cases "copyGrid (heap w) grid")
    from copyGrid_spec [OF cg] obtain as css where
      ga: "getArr h1 sg = Some as" and co: "copyOf h1 as css grid" by blast
    let ?w1 = "w\<lparr>heap := h1\<rparr>"
    have s3: "copyGridM grid w = (Inr sg, ?w1)"
      using cg by (simp add: copyGridM_def)
    have "cellAddr h1 sg r c = None"
    proof (cases "0 \<le> r \<and> r < int (length grid)")
      case False
      with ga co show ?thesis
        by (auto simp: cellAddr_def nth_opt_def copyOf_def list_all2_lengthD)
    next
      case True
      then have i: "nat r < length grid" by (simp add: nat_less_iff)
      note n = copyOf_nth [OF co i]
      from old True have "\<not> (0 \<le> c \<and> c < int (length (grid ! nat r)))"
        by (auto simp: cellAt_def nth_opt_def split: if_splits)
      with ga True n show ?thesis
        by (auto simp: cellAddr_def nth_opt_def)
    qed
    then have s4: "cellAddrM sg r c ?w1 = (Inl TypeError, ?w1)"
      by (simp add: cellAddrM_def defined_def throw_def)
    show ?thesis
      unfolding calculateChainReactionPotential_def Let_def
      by (simp add: bnd_apply s1 s2 s3 s4)
  qed
qed

lemma sum_list_map_mono:
  fixes f g :: "'a \<Rightarrow> int"
  assumes "\<And>x. x \<in> set xs \<Longrightarrow> f x \<le> g x"
  shows "sum_list (map f xs) \<le> sum_list (map g xs)"
  using assms by (induction xs) (auto intro: add_mono)

lemma sum_list_map_nonneg:
  fixes f :: "'a \<Rightarrow> int"
  assumes "\<And>x. x \<in> set xs \<Longrightarrow> 0 \<le> f x"
  shows "0 \<le> sum_list (map f xs)"
  using assms by (induction xs) auto

lemma chainValue_nonneg: "0 \<le> chainValue cm grid r c"
  unfolding chainValue_def Let_def
  by (auto intro!: sum_list_map_nonneg add_nonneg_nonneg)

lemma chainValue_mono:
  assumes len: "length grid' = length grid" "length (hd grid') = length (hd grid)"
    and le: "\<And>r c. atomsAfter grid r0 c0 r c \<le> atomsAfter grid' r0 c0 r c"
  shows "chainValue cm grid r0 c0 \<le> chainValue cm grid' r0 c0"
proof -
  let ?rows = "int (length grid)" and ?cols = "int (length (hd grid))"
  have we: "wouldExplode cm grid r0 c0 n \<Longrightarrow> wouldExplode cm grid' r0 c0 n" for n
    using le [of "fst n" "snd n"] len by (simp add: wouldExplode_def)
  have inner: "sum_list (map (\<lambda>n2. if wouldExplode cm grid r0 c0 n2 then 2 else 0) ns)
      \<le> sum_list (map (\<lambda>n2. if wouldExplode cm grid' r0 c0 n2 then 2 else (0::int)) ns)" for ns
    by (rule sum_list_map_mono) (auto dest: we)
  have inner0: "0 \<le> sum_list (map (\<lambda>n2. if wouldExplode cm grid' r0 c0 n2 then 2 else (0::int)) ns)"
    for ns
    by (rule sum_list_map_nonneg) simp
  have outer: "sum_list (map (\<lambda>n.
             if wouldExplode cm grid r0 c0 n
             then (5::int) + sum_list (map (\<lambda>n2. if wouldExplode cm grid r0 c0 n2 then 2 else 0)
                         (getNeighborsForAI (fst n) (snd n) ?rows ?cols))
             else 0) ns)
     \<le> sum_list (map (\<lambda>n.
             if wouldExplode cm grid' r0 c0 n
             then 5 + sum_list (map (\<lambda>n2. if wouldExplode cm grid' r0 c0 n2 then 2 else 0)
                         (getNeighborsForAI (fst n) (snd n) ?rows ?cols))
             else 0) ns)" for ns
  proof (rule sum_list_map_mono)
    fix n
    show "(if wouldExplode cm grid r0 c0 n
             then (5::int) + sum_list (map (\<lambda>n2. if wouldExplode cm grid r0 c0 n2 then 2 else 0)
                         (getNeighborsForAI (fst n) (snd n) ?rows ?cols))
             else 0)
        \<le> (if wouldExplode cm grid' r0 c0 n
             then 5 + sum_list (map (\<lambda>n2. if wouldExplode cm grid' r0 c0 n2 then 2 else 0)
                         (getNeighborsForAI (fst n) (snd n) ?rows ?cols))
             else 0)"
      using we [of n] inner [of "getNeighborsForAI (fst n) (snd n) ?rows ?cols"]
        inner0 [of "getNeighborsForAI (fst n) (snd n) ?rows ?cols"]
      by auto
  qed
  show ?thesis
  proof (cases "atomsAfter grid r0 c0 r0 c0 \<ge> cm r0 c0 ?rows ?cols")
    case True
    with le [of r0 c0] have "atomsAfter grid' r0 c0 r0 c0 \<ge> cm r0 c0 ?rows ?cols" by simp
    with True outer show ?thesis by (simp add: chainValue_def len Let_def)
  next
    case False
    then have "chainValue cm grid r0 c0 = 0" by (simp add: chainValue_def Let_def)
    with chainValue_nonneg [of cm grid' r0 c0] show ?thesis by simp
  qed
qed

lemma cellAt_update:
  assumes "cellAt grid nr nc = Some n"
  shows "cellAt (grid[nat nr := (grid ! nat nr)[nat nc := x]]) r c
           = (if r = nr \<and> c = nc then Some x else cellAt grid r c)"
proof -
  from assms have b: "0 \<le> nr" "nat nr < length grid" "0 \<le> nc" "nat nc < length (grid ! nat nr)"
    by (auto simp: cellAt_Some_iff)
  show ?thesis
  proof (cases "0 \<le> r \<and> nat r < length grid")
    case False
    with b show ?thesis by (auto simp: cellAt_def nth_opt_def nat_less_iff)
  next
    case True
    show ?thesis
    proof (cases "r = nr")
      case False
      with True b have "nat r \<noteq> nat nr" by (simp add: eq_nat_nat_iff)
      with True show ?thesis by (simp add: cellAt_def nth_opt_def False)
    next
      case rn: True
      show ?thesis
      proof (cases "c = nc")
        case True
        with rn b show ?thesis by (simp add: cellAt_def nth_opt_def nat_less_iff)
      next
        case False
        have "0 \<le> c \<Longrightarrow> nat c \<noteq> nat nc" using False b by (simp add: eq_nat_nat_iff)
        with rn b False show ?thesis by (auto simp: cellAt_def nth_opt_def nat_less_iff)
      qed
    qed
  qed
qed


text \<open>
  C8 (monotonicity of the chain potential). On a rectangular board, raising the atom count
  of one cell other than the target (up to at most that cell's critical mass) and leaving
  everything else as it is never lowers the result of \<open>calculateChainReactionPotential\<close>
  for the target: both calls return, and the second value is at least the first.
\<close>

theorem chain_potential_monotone:
  assumes rg: "readGrid (heap w) g = Some grid" and rg': "readGrid (heap w') g' = Some grid'"
    and rect: "rectangular grid"
    and tgt: "cellAt grid r c = Some target"
    and nb: "cellAt grid nr nc = Some n" and other: "(nr, nc) \<noteq> (r, c)"
    and upd: "grid' = grid[nat nr := (grid ! nat nr)[nat nc := n\<lparr>atoms := k\<rparr>]]"
    and more: "atoms n < k"
    and cap: "k \<le> cm nr nc (int (length grid)) (int (length (hd grid)))"
  shows "\<exists>v v'. fst (calculateChainReactionPotential cm g r c p w) = Inr v
           \<and> fst (calculateChainReactionPotential cm g' r c p w') = Inr v'
           \<and> v \<le> v'"
proof -
  from nb have b: "0 \<le> nr" "nat nr < length grid" "0 \<le> nc" "nat nc < length (grid ! nat nr)"
    by (auto simp: cellAt_Some_iff)
  then have ne: "grid \<noteq> []" by auto
  have len: "length grid' = length grid" by (simp add: upd)
  have rows: "length (grid' ! i) = length (grid ! i)" if "i < length grid" for i
    using that b by (simp add: upd nth_list_update)
  have hd': "length (hd grid') = length (hd grid)"
  proof -
    from ne len have ne': "grid' \<noteq> []" by auto
    from ne have "0 < length grid" by simp
    from rows [OF this] ne ne' show ?thesis by (simp add: hd_conv_nth)
  qed
  have rect': "rectangular grid'"
    using rect len rows hd' by (simp add: rectangular_def list_all_length)
  have tgt': "cellAt grid' r c = Some target"
    using cellAt_update [OF nb, of "n\<lparr>atoms := k\<rparr>" r c] other tgt by (auto simp: upd)
  have le: "atomsAfter grid r c r' c' \<le> atomsAfter grid' r c r' c'" for r' c'
    using cellAt_update [OF nb, of "n\<lparr>atoms := k\<rparr>" r' c'] other nb more
    by (auto simp: atomsAfter_def upd split: option.splits)
  from chain_value [OF rg rect tgt] chain_value [OF rg' rect' tgt']
    chainValue_mono [OF len hd' le]
  show ?thesis by blast
qed

theorem chain_potential_monotone_witness:
  "readGrid (heap mono22a) 6 = Some gridMono
   \<and> rectangular gridMono
   \<and> cellAt gridMono 0 1 = Some emptyCell
   \<and> readGrid (heap mono22b) 6 = Some (gridMono[nat 0 := (gridMono ! nat 0)[nat 1 := emptyCell\<lparr>atoms := 1\<rparr>]])
   \<and> fst (calculateChainReactionPotential neighbourCount 6 0 0 RED mono22a) = Inr 0
   \<and> fst (calculateChainReactionPotential neighbourCount 6 0 0 RED mono22b) = Inr 7
   \<and> (\<exists>v v'. fst (calculateChainReactionPotential neighbourCount 6 0 0 RED mono22a) = Inr v
           \<and> fst (calculateChainReactionPotential neighbourCount 6 0 0 RED mono22b) = Inr v'
           \<and> v \<le> v')"
proof -
  have a: "readGrid (heap mono22a) 6 = Some gridMono" by code_simp
  have b: "readGrid (heap mono22b) 6
      = Some (gridMono[nat 0 := (gridMono ! nat 0)[nat 1 := emptyCell\<lparr>atoms := 1\<rparr>]])"
    by code_simp
  have c: "rectangular gridMono" by code_simp
  have d: "cellAt gridMono 0 0 = Some \<lparr>atoms = 1, player = Some RED\<rparr>" by code_simp
  have e: "cellAt gridMono 0 1 = Some emptyCell" by code_simp
  have f: "((0::int), (1::int)) \<noteq> (0, 0)" by simp
  have g: "atoms emptyCell < 1" by (simp add: emptyCell_def)
  have h: "1 \<le> neighbourCount 0 1 (int (length gridMono)) (int (length (hd gridMono)))"
    by code_simp
  have v: "fst (calculateChainReactionPotential neighbourCount 6 0 0 RED mono22a) = Inr 0"
    by code_simp
  have v': "fst (calculateChainReactionPotential neighbourCount 6 0 0 RED mono22b) = Inr 7"
    by code_simp
  have u: "gridMono[nat 0 := (gridMono ! nat 0)[nat 1 := emptyCell\<lparr>atoms := 1\<rparr>]]
      = gridMono[nat 0 := (gridMono ! nat 0)[nat 1 := emptyCell\<lparr>atoms := 1\<rparr>]]" by (rule refl)
  from chain_potential_monotone [where cm = neighbourCount and p = RED, OF a b c d e f u g h]
    a b c e v v'
  show ?thesis by blast
qed

section \<open>What a computation leaves untouched in the store\<close>

named_theorems keeps_intros

lemma keepsI:
  assumes "\<And>w. n \<le> length (heap w) \<Longrightarrow> take n (heap (snd (m w))) = take n (heap w)"
  shows "keeps n m"
  using assms by (simp add: keeps_def)

lemma keepsD:
  assumes "keeps n m" and "n \<le> length (heap w)"
  shows "take n (heap (snd (m w))) = take n (heap w)" and "n \<le> length (heap (snd (m w)))"
proof -
  from assms show t: "take n (heap (snd (m w))) = take n (heap w)" by (simp add: keeps_def)
  from assms(2) have "length (take n (heap w)) = n" by simp
  with t have "length (take n (heap (snd (m w)))) = n" by simp
  then show "n \<le> length (heap (snd (m w)))" by simp
qed

lemma keeps_ret [keeps_intros]: "keeps n (ret x)"
  by (simp add: keeps_def ret_def)

lemma keeps_throw [keeps_intros]: "keeps n throw"
  by (simp add: keeps_def throw_def)

lemma keeps_defined [keeps_intros]: "keeps n (defined v)"
  by (cases v) (simp_all add: defined_def keeps_ret keeps_throw)

lemma keeps_liftE [keeps_intros]: "keeps n (liftE v)"
  by (cases v) (simp_all add: liftE_def keeps_ret keeps_throw)

lemma keeps_random [keeps_intros]: "keeps n (random rnd)"
  by (simp add: keeps_def random_def)

lemma keeps_readGridM [keeps_intros]: "keeps n (readGridM g)"
  by (simp add: keeps_def readGridM_def defined_def ret_def throw_def split: option.splits)

lemma keeps_heapCellAtM [keeps_intros]: "keeps n (heapCellAtM g r c)"
  by (simp add: keeps_def heapCellAtM_def defined_def ret_def throw_def split: option.splits)

lemma keeps_getCellM [keeps_intros]: "keeps n (getCellM a)"
  by (simp add: keeps_def getCellM_def defined_def ret_def throw_def split: option.splits)

lemma keeps_cellAddrM [keeps_intros]: "keeps n (cellAddrM g r c)"
  by (simp add: keeps_def cellAddrM_def defined_def ret_def throw_def split: option.splits)

lemma keeps_state_read [keeps_intros]:
  "keeps n (\<lambda>w. defined (f (heap w)) w)"
  by (simp add: keeps_def defined_def ret_def throw_def split: option.splits)

lemma keeps_copyGridM [keeps_intros]: "keeps n (copyGridM grid)"
proof (rule keepsI)
  fix w :: "'a world" assume n: "n \<le> length (heap w)"
  obtain sg h1 where cg: "copyGrid (heap w) grid = (sg, h1)" by (cases "copyGrid (heap w) grid")
  from copyGrid_spec [OF cg] obtain ext where "h1 = heap w @ ext" by blast
  with cg n show "take n (heap (snd (copyGridM grid w))) = take n (heap w)"
    by (simp add: copyGridM_def)
qed

lemma keeps_allocCellM [keeps_intros]: "keeps n (allocCellM x)"
  by (simp add: keeps_def allocCellM_def)

lemma keeps_setCellM: "n \<le> a \<Longrightarrow> keeps n (setCellM a x)"
  by (simp add: keeps_def setCellM_def)

lemma keeps_setArrM: "n \<le> a \<Longrightarrow> keeps n (setArrM a xs)"
  by (simp add: keeps_def setArrM_def)

lemma keeps_bnd [keeps_intros]:
  assumes "keeps n m" and "\<And>x. keeps n (f x)"
  shows "keeps n (bnd m f)"
proof (rule keepsI)
  fix w :: "'a world" assume n: "n \<le> length (heap w)"
  obtain res w1 where m: "m w = (res, w1)" by (cases "m w")
  from keepsD [OF assms(1) n] m have 1: "take n (heap w1) = take n (heap w)"
    and 2: "n \<le> length (heap w1)" by simp_all
  show "take n (heap (snd (bnd m f w))) = take n (heap w)"
  proof (cases res)
    case (Inl e)
    with m 1 show ?thesis by (simp add: bnd_def)
  next
    case (Inr x)
    from keepsD(1) [OF assms(2) 2, of x] 1 m Inr show ?thesis by (simp add: bnd_def)
  qed
qed

lemma keeps_forEach [keeps_intros]:
  assumes "\<And>x acc. keeps n (f x acc)"
  shows "keeps n (forEach f xs acc)"
  by (induction xs arbitrary: acc) (auto intro: keeps_ret keeps_bnd assms)

lemma keeps_if [keeps_intros]:
  "keeps n a \<Longrightarrow> keeps n b \<Longrightarrow> keeps n (if c then a else b)"
  by simp

lemma keeps_case_option [keeps_intros]:
  "keeps n a \<Longrightarrow> (\<And>x. keeps n (b x)) \<Longrightarrow> keeps n (case v of None \<Rightarrow> a | Some x \<Rightarrow> b x)"
  by (cases v) simp_all

lemma keeps_case_prod [keeps_intros]:
  "(\<And>a b. keeps n (f a b acc)) \<Longrightarrow> keeps n ((case x of (a, b) \<Rightarrow> f a b) acc)"
  by (cases x) simp

lemma cellAddr_fresh:
  assumes cg: "copyGrid h grid = (sg, h1)" and ca: "cellAddr h1 sg r c = Some a"
  shows "length h \<le> a"
proof -
  from copyGrid_spec [OF cg] obtain as css where
    ga: "getArr h1 sg = Some as" and co: "copyOf h1 as css grid"
    and su: "set (concat css) \<subseteq> {length h..<length h1}" by blast
  from co have l: "length as = length css"
    and arr: "\<And>i. i < length as \<Longrightarrow> getArr h1 (as ! i) = Some (css ! i)"
    by (auto simp: copyOf_def list_all2_conv_all_nth)
  from ca ga obtain cs where r: "0 \<le> r" "nat r < length as"
    and cs: "getArr h1 (as ! nat r) = Some cs" and c: "0 \<le> c" "nat c < length cs"
    and a: "a = cs ! nat c"
    by (auto simp: cellAddr_def nth_opt_def nat_less_iff split: if_splits Option.bind_splits)
  from arr [OF r(2)] cs have "cs = css ! nat r" by simp
  with c a r l have "a \<in> set (concat css)"
    by (auto intro!: bexI [of _ "css ! nat r"])
  with su show ?thesis by auto
qed

lemma keeps_calculateChainReactionPotential [keeps_intros]:
  "keeps n (calculateChainReactionPotential cm g r c p)"
proof (rule keepsI)
  fix w :: "'a world" assume n: "n \<le> length (heap w)"
  show "take n (heap (snd (calculateChainReactionPotential cm g r c p w))) = take n (heap w)"
  proof (cases "readGrid (heap w) g")
    case None
    then show ?thesis
      by (simp add: calculateChainReactionPotential_def bnd_apply readGridM_def defined_def
            throw_def)
  next
    case (Some grid)
    then have s1: "readGridM g w = (Inr grid, w)"
      by (simp add: readGridM_def defined_def ret_def)
    show ?thesis
    proof (cases "nth_opt grid 0")
      case None
      then show ?thesis
        by (simp add: calculateChainReactionPotential_def bnd_apply s1 defined_def throw_def)
    next
      case (Some row0)
      then have s2: "defined (nth_opt grid 0) w = (Inr row0, w)"
        by (simp add: defined_def ret_def)
      obtain sg h1 where cg: "copyGrid (heap w) grid = (sg, h1)"
        by (cases "copyGrid (heap w) grid")
      let ?w1 = "w\<lparr>heap := h1\<rparr>"
      have s3: "copyGridM grid w = (Inr sg, ?w1)" using cg by (simp add: copyGridM_def)
      from copyGrid_spec [OF cg] obtain ext where ext: "h1 = heap w @ ext" by blast
      with n have t1: "take n (heap ?w1) = take n (heap w)" and n1: "n \<le> length (heap ?w1)"
        by simp_all
      show ?thesis
      proof (cases "cellAddr h1 sg r c")
        case None
        then have "cellAddrM sg r c ?w1 = (Inl TypeError, ?w1)"
          by (simp add: cellAddrM_def defined_def throw_def)
        with t1 show ?thesis
          unfolding calculateChainReactionPotential_def Let_def
          by (simp add: bnd_apply s1 s2 s3)
      next
        case (Some a)
        then have s4: "cellAddrM sg r c ?w1 = (Inr a, ?w1)"
          by (simp add: cellAddrM_def defined_def ret_def)
        from cellAddr_fresh [OF cg Some] n have na: "n \<le> a" by simp
        let ?rest = "bnd (getCellM a) (\<lambda>old.
          bnd (setCellM a (old\<lparr>atoms := atoms old + 1, player := Some p\<rparr>)) (\<lambda>_.
          if atoms old + 1 \<ge> cm r c (int (length grid)) (int (length row0))
          then forEach (\<lambda>(nr, nc) chainPotential.
            bnd (heapCellAtM sg nr nc) (\<lambda>neighborCell.
            if atoms neighborCell + 1 \<ge> cm nr nc (int (length grid)) (int (length row0))
            then forEach (\<lambda>(nnr, nnc) chainPotential.
                   bnd (heapCellAtM sg nnr nnc) (\<lambda>secondCell.
                   ret (if atoms secondCell + 1
                             \<ge> cm nnr nnc (int (length grid)) (int (length row0))
                        then chainPotential + 2 else chainPotential)))
                   (getNeighborsForAI nr nc (int (length grid)) (int (length row0)))
                   (chainPotential + 5)
            else ret chainPotential))
            (getNeighborsForAI r c (int (length grid)) (int (length row0))) (0::int)
          else ret 0))"
        have k: "keeps n ?rest"
          by (intro keeps_intros keeps_setCellM na)
        have e: "calculateChainReactionPotential cm g r c p w = ?rest ?w1"
          unfolding calculateChainReactionPotential_def Let_def
          by (simp add: bnd_apply [of "readGridM g"] bnd_apply [of "defined (nth_opt grid 0)"]
                bnd_apply [of "copyGridM grid"] bnd_apply [of "cellAddrM sg r c"] s1 s2 s3 s4)
        from keepsD(1) [OF k n1] t1 e show ?thesis by simp
      qed
    qed
  qed
qed

lemma allocRows_fresh:
  "allocRows h grid = (as, h') \<Longrightarrow> length h \<le> length h' \<and> (\<forall>a \<in> set as. length h \<le> a)"
proof (induction grid arbitrary: h as h')
  case Nil
  then show ?case by simp
next
  case (Cons cells rest)
  obtain a h1 where ar: "allocRow h cells = (a, h1)" by (cases "allocRow h cells")
  obtain as' h2 where ars: "allocRows h1 rest = (as', h2)" by (cases "allocRows h1 rest")
  from Cons.prems ar ars have eq: "as = a # as'" "h' = h2" by auto
  from allocRow_spec [OF ar] have "length h \<le> a" "length h \<le> length h1" by auto
  with Cons.IH [OF ars] eq show ?case by auto
qed

lemma rowAddr_fresh:
  assumes cg: "copyGrid h grid = (sg, h1)" and ra: "rowAddr h1 sg r = Some a"
  shows "length h \<le> a"
proof -
  obtain as h' where ar: "allocRows h grid = (as, h')" by (cases "allocRows h grid")
  with cg have sg: "sg = length h'" and h1: "h1 = h' @ [Arr as]" by (auto simp: copyGrid_def)
  then have "getArr h1 sg = Some as" by (simp add: getArr_def)
  with ra have "a \<in> set as"
    by (auto simp: rowAddr_def dest: nth_opt_mem)
  with allocRows_fresh [OF ar] show ?thesis by auto
qed

lemma defined_Some: "defined (Some x) w = (Inr x, w)"
  by (simp add: defined_def ret_def)

lemma keeps_simulateMove [keeps_intros]: "keeps n (simulateMove g r c p)"
proof (rule keepsI)
  fix w :: "'a world" assume n: "n \<le> length (heap w)"
  show "take n (heap (snd (simulateMove g r c p w))) = take n (heap w)"
  proof (cases "readGrid (heap w) g")
    case None
    then show ?thesis
      by (simp add: simulateMove_def bnd_apply readGridM_def defined_def throw_def)
  next
    case (Some grid)
    then have s1: "readGridM g w = (Inr grid, w)"
      by (simp add: readGridM_def defined_def ret_def)
    obtain sg h1 where cg: "copyGrid (heap w) grid = (sg, h1)"
      by (cases "copyGrid (heap w) grid")
    let ?w1 = "w\<lparr>heap := h1\<rparr>"
    have s2: "copyGridM grid w = (Inr sg, ?w1)" using cg by (simp add: copyGridM_def)
    from copyGrid_spec [OF cg] obtain ext where ext: "h1 = heap w @ ext" by blast
    with n have t1: "take n (heap ?w1) = take n (heap w)" and n1: "n \<le> length (heap ?w1)"
      by simp_all
    show ?thesis
    proof (cases "rowAddr h1 sg r")
      case None
      with t1 show ?thesis
        by (simp add: simulateMove_def bnd_apply s1 s2 defined_def throw_def)
    next
      case (Some ra)
      from rowAddr_fresh [OF cg Some] n have na: "n \<le> ra" by simp
      let ?rest = "bnd (\<lambda>w. defined (getArr (heap w) ra) w) (\<lambda>cs.
         bnd (heapCellAtM sg r c) (\<lambda>old.
         bnd (allocCellM \<lparr>atoms = atoms old + 1, player = Some p\<rparr>) (\<lambda>a.
         bnd (setArrM ra (cs[nat c := a])) (\<lambda>_.
         ret sg))))"
      have k: "keeps n ?rest"
        by (intro keeps_intros keeps_setArrM na)
      have e: "simulateMove g r c p w = ?rest ?w1"
        unfolding simulateMove_def
        by (simp add: bnd_apply [of "readGridM g"] bnd_apply [of "copyGridM grid"]
              bnd_apply [of "\<lambda>w. defined (rowAddr (heap w) sg r) w"]
              s1 s2 Some defined_Some)
      from keepsD(1) [OF k n1] t1 e show ?thesis by simp
    qed
  qed
qed

lemma simulateMove_fresh:
  assumes "simulateMove g r c p w = (Inr g', w')"
  shows "length (heap w) \<le> g'"
proof -
  from assms obtain grid w1 where g: "copyGridM grid w = (Inr g', w1)"
    unfolding simulateMove_def
    by (auto elim!: bnd_InrE readGridM_InrE ret_InrE)
  obtain sg h1 where cg: "copyGrid (heap w) grid = (sg, h1)"
    by (cases "copyGrid (heap w) grid")
  with g have "g' = sg" by (simp add: copyGridM_def)
  with copyGrid_spec [OF cg] show ?thesis by blast
qed

lemma keeps_getPersonality [keeps_intros]: "keeps n (getPersonality rnd p)"
proof (rule keepsI)
  fix w :: "AIPersonality world"
  obtain res w' where gp: "getPersonality rnd p w = (res, w')" by (cases "getPersonality rnd p w")
  from getPersonality_heap [OF gp] gp
  show "take n (heap (snd (getPersonality rnd p w))) = take n (heap w)" by simp
qed

lemma keeps_evaluateStrategicMove [keeps_intros]:
  "keeps n (evaluateStrategicMove rnd cm g r c p gameState)"
  unfolding evaluateStrategicMove_def Let_def positionBonus_def enemyNeighborPenalty_def
    isolationBonus_def
  by (intro keeps_intros)

lemma keeps_evaluateMove [keeps_intros]:
  "keeps n (evaluateMove rnd cm g r c p gameState)"
  unfolding evaluateMove_def Let_def
  by (intro keeps_intros)

lemma keeps_scoreMoves [keeps_intros]:
  "keeps n (scoreMoves rnd cm g p gameState moves)"
  by (induction moves) (auto intro!: keeps_intros)

lemma keeps_getBestMove [keeps_intros]:
  "keeps n (getBestMove rnd cm isAdjacentTo g p isBaseMode hqs powerUps)"
  unfolding getBestMove_def Let_def
  by (intro keeps_intros)

lemma those_Some_all:
  "those xs = Some ys \<Longrightarrow> \<forall>x \<in> set xs. x \<noteq> None"
  by (induction xs arbitrary: ys) (auto split: option.splits)

lemma readRow_append:
  assumes "readRow h ra = Some cells"
  shows "readRow (h @ ext) ra = Some cells"
proof -
  from assms obtain cs where cs: "getArr h ra = Some cs"
    and t: "those (map (getCell h) cs) = Some cells"
    by (auto simp: readRow_def split: Option.bind_splits)
  from those_Some_all [OF t] have "\<forall>a \<in> set cs. a < length h"
    by (auto simp: getCell_def split: if_splits)
  then have eq: "map (getCell (h @ ext)) cs = map (getCell h) cs"
    by (auto simp: getCell_append)
  from cs getArr_Some_less [OF cs] have "getArr (h @ ext) ra = Some cs"
    by (simp add: getArr_append)
  then have "readRow (h @ ext) ra = those (map (getCell (h @ ext)) cs)"
    by (simp add: readRow_def)
  also have "\<dots> = those (map (getCell h) cs)" by (simp only: eq)
  also have "\<dots> = Some cells" by (rule t)
  finally show ?thesis .
qed

lemma readGrid_append:
  assumes "readGrid h g = Some grid"
  shows "readGrid (h @ ext) g = Some grid"
proof -
  from assms obtain rs where rs: "getArr h g = Some rs"
    and t: "those (map (readRow h) rs) = Some grid"
    by (auto simp: readGrid_def split: Option.bind_splits)
  from those_Some_all [OF t] have "\<forall>ra \<in> set rs. \<exists>cells. readRow h ra = Some cells" by auto
  then have eq: "map (readRow (h @ ext)) rs = map (readRow h) rs"
    by (auto simp: readRow_append)
  from rs getArr_Some_less [OF rs] have "getArr (h @ ext) g = Some rs"
    by (simp add: getArr_append)
  then have "readGrid (h @ ext) g = those (map (readRow (h @ ext)) rs)"
    by (simp add: readGrid_def)
  also have "\<dots> = those (map (readRow h) rs)" by (simp only: eq)
  also have "\<dots> = Some grid" by (rule t)
  finally show ?thesis .
qed

lemma keeps_prefix:
  assumes "keeps (length (heap w)) m"
  shows "prefix (heap w) (heap (snd (m w)))"
proof -
  from keepsD(1) [OF assms order_refl]
  have "take (length (heap w)) (heap (snd (m w))) = heap w" by simp
  then show ?thesis by (metis take_is_prefix)
qed

lemma keeps_readGrid:
  assumes "keeps (length (heap w)) m" and "readGrid (heap w) g = Some grid"
  shows "readGrid (heap (snd (m w))) g = Some grid"
proof -
  from keeps_prefix [OF assms(1)] obtain ext where "heap (snd (m w)) = heap w @ ext"
    by (auto simp: prefix_def)
  with readGrid_append [OF assms(2)] show ?thesis by simp
qed

lemma calc_no_grid:
  "readGrid (heap w) g = None \<Longrightarrow> snd (calculateChainReactionPotential cm g r c p w) = w"
  by (simp add: calculateChainReactionPotential_def bnd_apply readGridM_def defined_def throw_def)

lemma simulateMove_no_grid:
  "readGrid (heap w) g = None \<Longrightarrow> snd (simulateMove g r c p w) = w"
  by (simp add: simulateMove_def bnd_apply readGridM_def defined_def throw_def)

lemma getBestMove_no_grid:
  assumes "readGrid (heap w) g = None"
  shows "heap (snd (getBestMove rnd cm isAdjacentTo g p isBaseMode hqs powerUps w)) = heap w"
proof -
  obtain res w1 where gp: "getPersonality rnd p w = (res, w1)" by (cases "getPersonality rnd p w")
  from getPersonality_heap [OF gp] obtain per where h: "heap w1 = heap w" and r: "res = Inr per"
    by blast
  with assms have "readGridM g w1 = (Inl TypeError, w1)"
    by (simp add: readGridM_def defined_def throw_def)
  with gp r h show ?thesis
    by (simp add: getBestMove_def Let_def bnd_apply [of "getPersonality rnd p"]
          bnd_apply [of "readGridM g"])
qed

lemma snd_getAIMove:
  "snd (getAIMove rnd cm isAdjacentTo g p isBaseMode hqs powerUps w)
     = snd (getBestMove rnd cm isAdjacentTo g p isBaseMode hqs powerUps w)"
  by (simp add: getAIMove_def split: prod.splits sum.splits)

lemma unchanged:
  assumes k: "keeps (length (heap w)) m"
    and none: "readGrid (heap w) g = None \<Longrightarrow> heap (snd (m w)) = heap w"
  shows "prefix (heap w) (heap (snd (m w))) \<and> readGrid (heap (snd (m w))) g = readGrid (heap w) g"
proof (cases "readGrid (heap w) g")
  case None
  with none keeps_prefix [OF k] show ?thesis by simp
next
  case (Some grid)
  with keeps_readGrid [OF k Some] keeps_prefix [OF k] show ?thesis by simp
qed

text \<open>
  C4 (the caller's grid is never written). After \<open>calculateChainReactionPotential\<close>,
  after \<open>simulateMove\<close> and after a whole \<open>getAIMove\<close>, whether they return or raise,
  the store still begins with the store of before: every object that existed is unchanged,
  so the grid behind the caller's reference reads as before, cell by cell. The grid that
  \<open>simulateMove\<close> hands to the search is an object that did not exist before the call.
  (\<open>minimax\<close> itself is never called by \<open>getBestMove\<close>, which scores by
  \<open>evaluateMove\<close> directly.)
\<close>

theorem caller_grid_unchanged:
  "prefix (heap w) (heap (snd (calculateChainReactionPotential cm g r c p w)))
   \<and> readGrid (heap (snd (calculateChainReactionPotential cm g r c p w))) g = readGrid (heap w) g
   \<and> prefix (heap w) (heap (snd (simulateMove g r c p w)))
   \<and> readGrid (heap (snd (simulateMove g r c p w))) g = readGrid (heap w) g
   \<and> (\<forall>g'. fst (simulateMove g r c p w) = Inr g' \<longrightarrow> length (heap w) \<le> g')
   \<and> prefix (heap w)
        (heap (snd (getAIMove rnd cm isAdjacentTo g p isBaseMode hqs powerUps w)))
   \<and> readGrid (heap (snd (getAIMove rnd cm isAdjacentTo g p isBaseMode hqs powerUps w))) g
        = readGrid (heap w) g"
proof -
  have 1: "prefix (heap w) (heap (snd (calculateChainReactionPotential cm g r c p w)))
     \<and> readGrid (heap (snd (calculateChainReactionPotential cm g r c p w))) g
         = readGrid (heap w) g"
    by (rule unchanged) (simp_all add: keeps_calculateChainReactionPotential calc_no_grid)
  have 2: "prefix (heap w) (heap (snd (simulateMove g r c p w)))
     \<and> readGrid (heap (snd (simulateMove g r c p w))) g = readGrid (heap w) g"
    by (rule unchanged) (simp_all add: keeps_simulateMove simulateMove_no_grid)
  have 3: "\<forall>g'. fst (simulateMove g r c p w) = Inr g' \<longrightarrow> length (heap w) \<le> g'"
  proof (intro allI impI)
    fix g' assume "fst (simulateMove g r c p w) = Inr g'"
    then have "simulateMove g r c p w = (Inr g', snd (simulateMove g r c p w))"
      by (cases "simulateMove g r c p w") simp
    then show "length (heap w) \<le> g'" by (rule simulateMove_fresh)
  qed
  have 4: "prefix (heap w)
        (heap (snd (getBestMove rnd cm isAdjacentTo g p isBaseMode hqs powerUps w)))
     \<and> readGrid (heap (snd (getBestMove rnd cm isAdjacentTo g p isBaseMode hqs powerUps w))) g
        = readGrid (heap w) g"
    by (rule unchanged) (simp_all add: keeps_getBestMove getBestMove_no_grid)
  from 1 2 3 4 show ?thesis by (simp only: snd_getAIMove)
qed

theorem caller_grid_unchanged_witness:
  "length (heap board22) = 7
   \<and> readGrid (heap board22) 6 = Some grid22
   \<and> fst (simulateMove 6 0 0 RED board22) = Inr 13
   \<and> length (heap (snd (getAIMove (\<lambda>_. 1/2) neighbourCount adj8 6 RED False None None board22)))
        = 28
   \<and> prefix (heap board22)
        (heap (snd (getAIMove (\<lambda>_. 1/2) neighbourCount adj8 6 RED False None None board22)))
   \<and> readGrid (heap (snd (getAIMove (\<lambda>_. 1/2) neighbourCount adj8 6 RED False None None
          board22))) 6 = Some grid22
   \<and> readGrid (heap (snd (calculateChainReactionPotential neighbourCount 6 0 0 RED board22))) 6
        = Some grid22
   \<and> length (heap board22) \<le> 13"
proof -
  have a: "length (heap board22) = 7" by code_simp
  have b: "readGrid (heap board22) 6 = Some grid22" by code_simp
  have c: "fst (simulateMove 6 0 0 RED board22) = Inr 13" by code_simp
  have d: "length (heap (snd (getAIMove (\<lambda>_. 1/2) neighbourCount adj8 6 RED False None None
      board22))) = 28" by code_simp
  from caller_grid_unchanged [where w = board22 and g = 6 and r = 0 and c = 0 and p = RED
      and cm = neighbourCount and rnd = "\<lambda>_. 1/2" and isAdjacentTo = adj8
      and isBaseMode = False and hqs = None and powerUps = None] a b c d
  show ?thesis by simp
qed

end
